theory Spec2Isabelle
  imports Complex_Main "HOL-Library.Log_Nat"
begin

section \<open>Python values, exceptions and strings\<close>

text \<open>
  The repository is dynamically typed Python: the arguments of \<^verbatim>\<open>Radar.Config.set\<close> and
  the JSON bodies returned by the radar are inspected at run time (\<^verbatim>\<open>isinstance\<close>,
  \<^verbatim>\<open>in\<close>, \<^verbatim>\<open>len\<close>). They are modelled by one datatype of Python values. A float is the
  real number it stands for (infinities and NaN are left out). The true division of
  the directory listing rounds its quotient to a double as Python does
  (\<open>round_double\<close>); the other arithmetic on floats (the distances and thresholds of
  the position controller, the timeout of the results loop) is taken exact, and every
  comparison proved about it is between values that floats represent exactly.
\<close>

datatype pyval =
    PNone
  | PBool bool
  | PInt int
  | PFloat real
  | PStr string
  | PTuple "pyval list"
  | PList "pyval list"
  | PDict "(string \<times> pyval) list"

text \<open>
  The exceptions of \<^verbatim>\<open>apreshttp.py\<close> and the built-in ones the code can raise.
  \<^verbatim>\<open>RequestsConnectionError\<close> is \<^verbatim>\<open>requests.exceptions.ConnectionError\<close> (what
  \<^verbatim>\<open>requests.get\<close> and \<^verbatim>\<open>requests.post\<close> raise on a transport failure; it derives from
  \<^verbatim>\<open>RequestException(IOError)\<close>); \<^verbatim>\<open>ConnectionError\<close> is the built-in class of that
  name, which is a different class and not a base class of the former.
\<close>

datatype exn =
    InvalidAPIKeyException
  | InternalRadarErrorException
  | RadarBusyException
  | NotFoundException
  | BadResponseException
  | NoChirpStartedException
  | ResultsTimeoutException
  | DidNotUpdateException
  | ValueError
  | KeyError
  | TypeError
  | IndexError
  | AttributeError
  | ZeroDivisionError
  | OverflowError
  | JSONDecodeError
  | PlainException
  | FileExistsError
  | ConnectionError
  | RequestsConnectionError

text \<open>\<^verbatim>\<open>s.startswith(p)\<close> and \<^verbatim>\<open>s.find(sub)\<close>: the lowest index of an occurrence, or -1.\<close>

definition startswith :: "string \<Rightarrow> string \<Rightarrow> bool" where
  "startswith s p = (take (length p) s = p)"

definition endswith :: "string \<Rightarrow> string \<Rightarrow> bool" where
  "endswith s p = (length p \<le> length s \<and> drop (length s - length p) s = p)"

fun find_idx :: "string \<Rightarrow> string \<Rightarrow> nat option" where
  "find_idx sub [] = (if sub = [] then Some 0 else None)"
| "find_idx sub (c # cs) =
     (if startswith (c # cs) sub then Some 0 else map_option Suc (find_idx sub cs))"

definition py_find :: "string \<Rightarrow> string \<Rightarrow> int" where
  "py_find s sub = (case find_idx sub s of None \<Rightarrow> - 1 | Some i \<Rightarrow> int i)"

text \<open>
  \<^verbatim>\<open>isinstance(v, int) or isinstance(v, float)\<close> (\<^verbatim>\<open>bool\<close> is a subclass of \<^verbatim>\<open>int\<close>),
  the numeric value, \<^verbatim>\<open>==\<close> (numbers compare by value across \<^verbatim>\<open>int\<close>, \<^verbatim>\<open>float\<close> and
  \<^verbatim>\<open>bool\<close>; everything else structurally), truthiness, \<^verbatim>\<open>len\<close>, \<^verbatim>\<open>tuple(...)\<close>.
\<close>

definition is_number :: "pyval \<Rightarrow> bool" where
  "is_number v = (case v of PInt _ \<Rightarrow> True | PFloat _ \<Rightarrow> True | PBool _ \<Rightarrow> True | _ \<Rightarrow> False)"

definition num_of :: "pyval \<Rightarrow> real option" where
  "num_of v = (case v of PInt i \<Rightarrow> Some (of_int i) | PFloat r \<Rightarrow> Some r
                | PBool b \<Rightarrow> Some (if b then 1 else 0) | _ \<Rightarrow> None)"

text \<open>
  \<^verbatim>\<open>round(x, 0)\<close> on a float rounds to the nearest integer, a tie to the even one. So
  do \<^verbatim>\<open>datetime.timedelta\<close>, on the microseconds of its argument, and the arithmetic of
  floats, on the last bit of a result.
\<close>

definition py_round :: "real \<Rightarrow> real" where
  "py_round x =
     (let f = \<lfloor>x\<rfloor>; d = x - of_int f
      in if d < 1 / 2 then of_int f
         else if d > 1 / 2 then of_int (f + 1)
         else if even f then of_int f else of_int (f + 1))"

definition py_eq :: "pyval \<Rightarrow> pyval \<Rightarrow> bool" where
  "py_eq a b = (case (num_of a, num_of b) of
                  (Some x, Some y) \<Rightarrow> x = y
                | (None, None) \<Rightarrow> a = b
                | _ \<Rightarrow> False)"

definition py_truthy :: "pyval \<Rightarrow> bool" where
  "py_truthy v = (case v of PNone \<Rightarrow> False | PBool b \<Rightarrow> b | PInt i \<Rightarrow> i \<noteq> 0
                  | PFloat r \<Rightarrow> r \<noteq> 0 | PStr s \<Rightarrow> s \<noteq> [] | PTuple xs \<Rightarrow> xs \<noteq> []
                  | PList xs \<Rightarrow> xs \<noteq> [] | PDict d \<Rightarrow> d \<noteq> [])"

definition py_len :: "pyval \<Rightarrow> exn + nat" where
  "py_len v = (case v of PStr s \<Rightarrow> Inr (length s) | PTuple xs \<Rightarrow> Inr (length xs)
               | PList xs \<Rightarrow> Inr (length xs) | PDict d \<Rightarrow> Inr (length d)
               | _ \<Rightarrow> Inl TypeError)"

definition py_tuple :: "pyval \<Rightarrow> exn + pyval" where
  "py_tuple v = (case v of PList xs \<Rightarrow> Inr (PTuple xs) | PTuple xs \<Rightarrow> Inr (PTuple xs)
                 | PStr s \<Rightarrow> Inr (PTuple (map (\<lambda>c. PStr [c]) s))
                 | PDict d \<Rightarrow> Inr (PTuple (map (\<lambda>kv. PStr (fst kv)) d))
                 | _ \<Rightarrow> Inl TypeError)"

text \<open>
  Dictionaries are association lists in insertion order with distinct keys;
  \<^verbatim>\<open>d[k] = v\<close> replaces in place or appends, \<^verbatim>\<open>{**a, **b}\<close> stores the items of
  \<^verbatim>\<open>b\<close> into \<^verbatim>\<open>a\<close>.
\<close>

fun dict_set :: "(string \<times> pyval) list \<Rightarrow> string \<Rightarrow> pyval \<Rightarrow> (string \<times> pyval) list" where
  "dict_set [] k v = [(k, v)]"
| "dict_set (kv # d) k v = (if fst kv = k then (k, v) # d else kv # dict_set d k v)"

definition dict_merge ::
  "(string \<times> pyval) list \<Rightarrow> (string \<times> pyval) list \<Rightarrow> (string \<times> pyval) list" where
  "dict_merge a b = fold (\<lambda>kv d. dict_set d (fst kv) (snd kv)) b a"

definition dict_has :: "(string \<times> pyval) list \<Rightarrow> string \<Rightarrow> bool" where
  "dict_has d k = (map_of d k \<noteq> None)"

text \<open>
  \<^verbatim>\<open>k in j\<close> for a string \<^verbatim>\<open>k\<close> (key of a dict, element of a list or tuple, substring of
  a string; a \<^verbatim>\<open>TypeError\<close> on anything else) and \<^verbatim>\<open>j[k]\<close>.
\<close>

definition py_in :: "string \<Rightarrow> pyval \<Rightarrow> exn + bool" where
  "py_in k j = (case j of PDict d \<Rightarrow> Inr (dict_has d k)
                | PList xs \<Rightarrow> Inr (list_ex (\<lambda>x. x = PStr k) xs)
                | PTuple xs \<Rightarrow> Inr (list_ex (\<lambda>x. x = PStr k) xs)
                | PStr s \<Rightarrow> Inr (find_idx k s \<noteq> None)
                | _ \<Rightarrow> Inl TypeError)"

definition py_getitem :: "pyval \<Rightarrow> string \<Rightarrow> exn + pyval" where
  "py_getitem j k = (case j of
                       PDict d \<Rightarrow> (case map_of d k of None \<Rightarrow> Inl KeyError | Some v \<Rightarrow> Inr v)
                     | _ \<Rightarrow> Inl TypeError)"

section \<open>The root URL (\<^verbatim>\<open>API.assignRootURL\<close>, \<^verbatim>\<open>APIChild.formCompleteURL\<close>)\<close>

text \<open>
  \<^verbatim>\<open>assignRootURL\<close>: a non-string is a \<^verbatim>\<open>TypeError\<close>; text before the first
  \<^verbatim>\<open>"http://"\<close> is cut, a missing \<^verbatim>\<open>"http://"\<close> is prepended; then
  \<^verbatim>\<open>if root[-1] == "/": root = root[0:-1]\<close> removes one trailing character.
  \<^verbatim>\<open>root[-1]\<close> on an empty string would raise \<^verbatim>\<open>IndexError\<close>.
\<close>

definition assignRootURL :: "pyval \<Rightarrow> exn + string" where
  "assignRootURL root_arg =
     (case root_arg of
        PStr root0 \<Rightarrow>
          (let http_idx = py_find root0 ''http://'';
               root1 = (if http_idx > 0 then drop (nat http_idx) root0
                        else if http_idx = - 1 then ''http://'' @ root0
                        else root0)
           in if root1 = [] then Inl IndexError
              else if last root1 = CHR ''/'' then Inr (butlast root1)
              else Inr root1)
      | _ \<Rightarrow> Inl TypeError)"

definition formCompleteURL :: "string \<Rightarrow> string \<Rightarrow> string" where
  "formCompleteURL api_root url_part = api_root @ ''/api/'' @ url_part"

section \<open>The HTTP layer (\<^verbatim>\<open>APIChild\<close>)\<close>

text \<open>
  A request as \<^verbatim>\<open>requests.get\<close>/\<^verbatim>\<open>requests.post\<close> receives it, and the part of a
  response the client reads: the status code, the \<^verbatim>\<open>Content-Type\<close> header if there is
  one, and the body as \<^verbatim>\<open>response.json()\<close> parses it (\<open>None\<close> when the body is not
  JSON, so that \<^verbatim>\<open>response.json()\<close> raises).

  The radar is an oracle: \<open>dev n rq\<close> is what the request \<open>rq\<close>, the \<open>n\<close>-th of this
  client (its \<^verbatim>\<open>requestCount\<close>), produces: a response, or the exception \<^verbatim>\<open>requests\<close>
  raises.
\<close>

datatype meth = GET | POST

record request =
  req_method :: meth
  req_url :: string
  req_data :: "(string \<times> pyval) list"
  allow_redirects :: bool

record response =
  status_code :: int
  content_type :: "string option"
  json_body :: "pyval option"

type_synonym device = "int \<Rightarrow> request \<Rightarrow> exn + response"

text \<open>
  The state of an \<^verbatim>\<open>API\<close> object and of its \<^verbatim>\<open>Radar.Config\<close> child. The attributes of
  \<^verbatim>\<open>Config\<close> hold whatever JSON value the radar sent; an attribute not assigned yet is
  \<open>PNone\<close>. \<open>sent\<close> records the requests issued, oldest first. Debug output
  (\<^verbatim>\<open>debugEnable\<close>, off by default and never switched on in the repository) is left out.
\<close>

record client =
  api_root :: string
  timeout :: real
  resultsInterval :: real
  requestCount :: int
  apiKey :: string
  nAttenuators :: pyval
  nSubBursts :: pyval
  nAverages :: pyval
  afGain :: pyval
  rfAttn :: pyval
  userData :: pyval
  txAntenna :: pyval
  rxAntenna :: pyval
  sent :: "request list"

definition json :: "response \<Rightarrow> exn + pyval" where
  "json resp = (case json_body resp of None \<Rightarrow> Inl JSONDecodeError | Some j \<Rightarrow> Inr j)"

text \<open>
  \<^verbatim>\<open>validateResponse\<close>: only a JSON response that has an \<^verbatim>\<open>errorCode\<close> or
  \<^verbatim>\<open>errorMessage\<close> key is looked at; codes 401, 404, 500 and 503 raise.
\<close>

definition validateResponse :: "response \<Rightarrow> exn + unit" where
  "validateResponse resp =
     (if content_type resp = Some ''application/json'' then
        (case json resp of Inl e \<Rightarrow> Inl e | Inr response_json \<Rightarrow>
        (case py_in ''errorCode'' response_json of Inl e \<Rightarrow> Inl e | Inr has_code \<Rightarrow>
        (case (if has_code then Inr True else py_in ''errorMessage'' response_json) of
           Inl e \<Rightarrow> Inl e
         | Inr False \<Rightarrow> Inr ()
         | Inr True \<Rightarrow>
            (case py_getitem response_json ''errorCode'' of Inl e \<Rightarrow> Inl e | Inr code \<Rightarrow>
               if py_eq code (PInt 401) then Inl InvalidAPIKeyException
               else if py_eq code (PInt 404) then Inl NotFoundException
               else if py_eq code (PInt 500) then Inl InternalRadarErrorException
               else if py_eq code (PInt 503) then Inl RadarBusyException
               else Inr ()))))
      else Inr ())"

text \<open>
  \<^verbatim>\<open>postRequest\<close> adds the API key when the data has none, counts the request, sends it
  and validates the response. \<^verbatim>\<open>getRequest\<close> sends the data as query parameters and
  passes no further keyword on (so every GET follows redirects, the default).
\<close>

definition postRequest ::
  "device \<Rightarrow> string \<Rightarrow> (string \<times> pyval) list option \<Rightarrow> bool \<Rightarrow> client
     \<Rightarrow> (exn + response) \<times> client" where
  "postRequest dev url data_obj redirects c =
     (let completeUrl = formCompleteURL (api_root c) url;
          data1 = (case data_obj of
                     None \<Rightarrow> [(''apikey'', PStr (apiKey c))]
                   | Some d \<Rightarrow> if dict_has d ''apikey'' then d
                              else dict_set d ''apikey'' (PStr (apiKey c)));
          rq = \<lparr>req_method = POST, req_url = completeUrl, req_data = data1,
                allow_redirects = redirects\<rparr>;
          c1 = c\<lparr>requestCount := requestCount c + 1, sent := sent c @ [rq]\<rparr>
      in case dev (requestCount c1) rq of
           Inl e \<Rightarrow> (Inl e, c1)
         | Inr resp \<Rightarrow>
             (case validateResponse resp of
                Inl e \<Rightarrow> (Inl e, c1)
              | Inr _ \<Rightarrow> (Inr resp, c1)))"

definition getRequest ::
  "device \<Rightarrow> string \<Rightarrow> (string \<times> pyval) list option \<Rightarrow> client
     \<Rightarrow> (exn + response) \<times> client" where
  "getRequest dev url data_obj c =
     (let completeUrl = formCompleteURL (api_root c) url;
          data1 = (case data_obj of None \<Rightarrow> [] | Some d \<Rightarrow> d);
          rq = \<lparr>req_method = GET, req_url = completeUrl, req_data = data1,
                allow_redirects = True\<rparr>;
          c1 = c\<lparr>requestCount := requestCount c + 1, sent := sent c @ [rq]\<rparr>
      in case dev (requestCount c1) rq of
           Inl e \<Rightarrow> (Inl e, c1)
         | Inr resp \<Rightarrow>
             (case validateResponse resp of
                Inl e \<Rightarrow> (Inl e, c1)
              | Inr _ \<Rightarrow> (Inr resp, c1)))"

section \<open>The radar configuration (\<^verbatim>\<open>Radar.Config\<close>)\<close>

fun require_keys :: "string list \<Rightarrow> pyval \<Rightarrow> exn + unit" where
  "require_keys [] j = Inr ()"
| "require_keys (k # ks) j =
     (case py_in k j of
        Inl e \<Rightarrow> Inl e
      | Inr present \<Rightarrow> if present then require_keys ks j else Inl BadResponseException)"

definition dict_get :: "(string \<times> pyval) list \<Rightarrow> string \<Rightarrow> pyval" where
  "dict_get d k = (case map_of d k of Some v \<Rightarrow> v | None \<Rightarrow> PNone)"

text \<open>
  \<^verbatim>\<open>readResponse\<close>: the eight keys must be present (\<^verbatim>\<open>BadResponseException\<close>); the values
  are stored as they come (\<open>dict_get\<close> is only applied to keys just found present; a
  body that is not a dict fails at the first subscript); the antenna lists become
  tuples; then both attenuator lists must have \<^verbatim>\<open>nAttenuators\<close> entries. The attributes
  assigned before a failure stay assigned.
\<close>

definition readResponse :: "response \<Rightarrow> client \<Rightarrow> (exn + unit) \<times> client" where
  "readResponse resp c =
     (case json resp of Inl e \<Rightarrow> (Inl e, c) | Inr response_json \<Rightarrow>
     (case require_keys [''nSubBursts'', ''nAttenuators'', ''nAverages'', ''rfAttn'',
                         ''afGain'', ''userData'', ''txAntenna'', ''rxAntenna'']
             response_json of
        Inl e \<Rightarrow> (Inl e, c)
      | Inr _ \<Rightarrow>
     (case response_json of
        PDict d \<Rightarrow>
          (let c1 = c\<lparr>nAttenuators := dict_get d ''nAttenuators'',
                      nSubBursts := dict_get d ''nSubBursts'',
                      nAverages := dict_get d ''nAverages'',
                      userData := dict_get d ''userData'',
                      rfAttn := dict_get d ''rfAttn'',
                      afGain := dict_get d ''afGain''\<rparr>
           in case py_tuple (dict_get d ''txAntenna'') of
                Inl e \<Rightarrow> (Inl e, c1)
              | Inr tx \<Rightarrow>
             (case py_tuple (dict_get d ''rxAntenna'') of
                Inl e \<Rightarrow> (Inl e, c1\<lparr>txAntenna := tx\<rparr>)
              | Inr rx \<Rightarrow>
                 (let c2 = c1\<lparr>txAntenna := tx, rxAntenna := rx\<rparr>
                  in case py_len (rfAttn c2) of
                       Inl e \<Rightarrow> (Inl e, c2)
                     | Inr n_rf \<Rightarrow>
                         if py_eq (PInt (int n_rf)) (nAttenuators c2) then
                           (case py_len (afGain c2) of
                              Inl e \<Rightarrow> (Inl e, c2)
                            | Inr n_af \<Rightarrow>
                                if py_eq (PInt (int n_af)) (nAttenuators c2)
                                then (Inr (), c2)
                                else (Inl BadResponseException, c2))
                         else (Inl BadResponseException, c2))))
      | _ \<Rightarrow> (Inl TypeError, c))))"

text \<open>\<^verbatim>\<open>Config.get\<close>: a GET of \<^verbatim>\<open>radar/config\<close>; any status but 200 is a bad response.\<close>

definition config_get :: "device \<Rightarrow> client \<Rightarrow> (exn + unit) \<times> client" where
  "config_get dev c =
     (case getRequest dev ''radar/config'' None c of
        (Inl e, c1) \<Rightarrow> (Inl e, c1)
      | (Inr resp, c1) \<Rightarrow>
          if status_code resp \<noteq> 200 then (Inl BadResponseException, c1)
          else readResponse resp c1)"

text \<open>\<^verbatim>\<open>str\<close> of an integer, and of an antenna flag (a value equal to 0 or 1).\<close>

definition digit :: "nat \<Rightarrow> char" where
  "digit n = ''0123456789'' ! (n mod 10)"

fun str_nat :: "nat \<Rightarrow> string" where
  "str_nat n = (if n < 10 then [digit n] else str_nat (n div 10) @ [digit n])"

declare str_nat.simps [simp del]

definition str_int :: "int \<Rightarrow> string" where
  "str_int i = (if i < 0 then CHR ''-'' # str_nat (nat (- i)) else str_nat (nat i))"

definition str_flag :: "pyval \<Rightarrow> string" where
  "str_flag v = (case v of PInt i \<Rightarrow> str_int i
                 | PBool b \<Rightarrow> (if b then ''True'' else ''False'')
                 | PFloat r \<Rightarrow> (if r = 0 then ''0.0'' else ''1.0'')
                 | _ \<Rightarrow> [])"

fun join_comma :: "string list \<Rightarrow> string" where
  "join_comma [] = []"
| "join_comma [x] = x"
| "join_comma (x # y # ys) = x @ '','' @ join_comma (y # ys)"

text \<open>
  The loop over an antenna mask: a value that is neither 0 nor 1 raises; \<^verbatim>\<open>count\<close> is
  incremented for every element, whatever its value.
\<close>

fun check_flags :: "pyval list \<Rightarrow> nat \<Rightarrow> exn + nat" where
  "check_flags [] count = Inr count"
| "check_flags (v # vs) count =
     (if \<not> py_eq v (PInt 0) \<and> \<not> py_eq v (PInt 1) then Inl ValueError
      else check_flags vs (count + 1))"

definition antenna_field :: "pyval \<Rightarrow> exn + pyval" where
  "antenna_field ant =
     (case ant of
        PTuple xs \<Rightarrow>
          if length xs = 8 then
            (case check_flags xs 0 of
               Inl e \<Rightarrow> Inl e
             | Inr count \<Rightarrow>
                 if count > 0 then Inr (PStr (join_comma (map str_flag xs)))
                 else Inl ValueError)
          else Inl ValueError
      | _ \<Rightarrow> Inl ValueError)"

text \<open>
  \<^verbatim>\<open>parseRFAttnAFGain\<close>. A number is accepted when the attenuator count is 1; a list
  must have as many entries as attenuators, and its non-numeric entries are skipped; the
  keys of a dict must match \<^verbatim>\<open>type + "([1-" + str(nAtts) + "])"\<close> at index 0. With
  \<^verbatim>\<open>nAtts == None\<close> the first two branches read \<^verbatim>\<open>self.nAtts\<close>, an attribute that does
  not exist. Any other argument gives the empty dict.

  The character class \<^verbatim>\<open>[1-N]\<close> is modelled for an integer count: the range from
  \<open>1\<close> to the first digit of \<open>N\<close> and the other digits of \<open>N\<close>; a count below 1 gives an
  invalid range (\<^verbatim>\<open>re.error\<close>, here \<open>ValueError\<close>). The text of a count that is not an
  \<^verbatim>\<open>int\<close> is not modelled (\<open>TypeError\<close> stands for it).
\<close>

definition in_class :: "string \<Rightarrow> char \<Rightarrow> bool" where
  "in_class n_str ch =
     (case n_str of
        [] \<Rightarrow> ch = CHR ''1'' \<or> ch = CHR ''-''
      | d # ds \<Rightarrow> (of_char (CHR ''1'') \<le> (of_char ch :: nat) \<and> (of_char ch :: nat) \<le> of_char d)
                  \<or> ch \<in> set ds)"

definition key_matches :: "string \<Rightarrow> string \<Rightarrow> string \<Rightarrow> bool" where
  "key_matches ptype n_str key =
     (startswith key ptype \<and> length ptype < length key \<and> in_class n_str (key ! length ptype))"

fun parse_list :: "string \<Rightarrow> pyval list \<Rightarrow> nat \<Rightarrow> (string \<times> pyval) list
    \<Rightarrow> (string \<times> pyval) list" where
  "parse_list ptype [] i resp = resp"
| "parse_list ptype (x # xs) i resp =
     parse_list ptype xs (i + 1)
       (if is_number x then dict_set resp (ptype @ str_nat (i + 1)) x else resp)"

fun parse_dict :: "string \<Rightarrow> string \<Rightarrow> (string \<times> pyval) list \<Rightarrow> (string \<times> pyval) list
    \<Rightarrow> exn + (string \<times> pyval) list" where
  "parse_dict ptype n_str [] resp = Inr resp"
| "parse_dict ptype n_str (kv # kvs) resp =
     (if key_matches ptype n_str (fst kv)
      then parse_dict ptype n_str kvs (dict_set resp (fst kv) (snd kv))
      else Inl KeyError)"

definition parseRFAttnAFGain ::
  "string \<Rightarrow> pyval \<Rightarrow> pyval \<Rightarrow> client \<Rightarrow> exn + (string \<times> pyval) list" where
  "parseRFAttnAFGain ptype arg n_atts c =
     (if \<not> (ptype = ''rfAttn'' \<or> ptype = ''afGain'') then Inl PlainException
      else if is_number arg then
        (if n_atts = PNone then Inl AttributeError
         else if py_eq n_atts (PInt 1) then Inr [(ptype @ ''1'', arg)]
         else Inl ValueError)
      else (case arg of
        PList xs \<Rightarrow>
          (if n_atts = PNone then Inl AttributeError
           else if py_eq (PInt (int (length xs))) n_atts then Inr (parse_list ptype xs 0 [])
           else Inl ValueError)
      | PDict d \<Rightarrow>
          (case (if n_atts = PNone then nAttenuators c else n_atts) of
             PInt n \<Rightarrow> if n < 1 then Inl ValueError
                       else parse_dict ptype (str_int n) d []
           | _ \<Rightarrow> Inl TypeError)
      | _ \<Rightarrow> Inr []))"

text \<open>
  The arguments of \<^verbatim>\<open>Config.set\<close>; \<open>PNone\<close> is the default \<^verbatim>\<open>None\<close>. (The fields
  \<open>nAverages_arg\<close> and \<open>userData_arg\<close> are the parameters \<^verbatim>\<open>nAverages\<close> and
  \<^verbatim>\<open>userData\<close>.)
\<close>

record set_args =
  nAtts :: pyval
  nAverages_arg :: pyval
  nBursts :: pyval
  rfAttnSet :: pyval
  afGainSet :: pyval
  txAnt :: pyval
  rxAnt :: pyval
  userData_arg :: pyval

definition no_args :: set_args where
  "no_args = \<lparr>nAtts = PNone, nAverages_arg = PNone, nBursts = PNone, rfAttnSet = PNone,
     afGainSet = PNone, txAnt = PNone, rxAnt = PNone, userData_arg = PNone\<rparr>"

definition py_or :: "pyval \<Rightarrow> pyval \<Rightarrow> pyval" where
  "py_or a b = (if py_truthy a then a else b)"

text \<open>
  The first half of \<^verbatim>\<open>set\<close>, after the call of \<^verbatim>\<open>get\<close>: the data of the POST is built
  field by field, in the order of the source; the result also carries \<^verbatim>\<open>valid_rf\<close> and
  \<^verbatim>\<open>valid_af\<close> (\<open>None\<close> when the argument was not given). A \<^verbatim>\<open>userData\<close> that is not a
  string is dropped silently (the \<^verbatim>\<open>ValueError\<close> is built, not raised).
\<close>

definition numeric_field ::
  "pyval \<Rightarrow> string \<Rightarrow> (string \<times> pyval) list \<Rightarrow> exn + (string \<times> pyval) list" where
  "numeric_field arg k data_obj =
     (if arg \<noteq> PNone then
        (if is_number arg then Inr (dict_set data_obj k arg) else Inl ValueError)
      else Inr data_obj)"

definition mask_field ::
  "pyval \<Rightarrow> string \<Rightarrow> (string \<times> pyval) list \<Rightarrow> exn + (string \<times> pyval) list" where
  "mask_field arg k data_obj =
     (if arg \<noteq> PNone then
        (case antenna_field arg of Inl e \<Rightarrow> Inl e | Inr v \<Rightarrow> Inr (dict_set data_obj k v))
      else Inr data_obj)"

definition attn_field ::
  "string \<Rightarrow> pyval \<Rightarrow> pyval \<Rightarrow> client \<Rightarrow> (string \<times> pyval) list
     \<Rightarrow> exn + ((string \<times> pyval) list \<times> (string \<times> pyval) list option)" where
  "attn_field ptype arg n_atts c data_obj =
     (if arg \<noteq> PNone then
        (case parseRFAttnAFGain ptype arg (py_or n_atts (nAttenuators c)) c of
           Inl e \<Rightarrow> Inl e
         | Inr valid \<Rightarrow> Inr (if length valid > 0 then dict_merge data_obj valid else data_obj,
                            Some valid))
      else Inr (data_obj, None))"

definition build_data ::
  "set_args \<Rightarrow> client
     \<Rightarrow> exn + ((string \<times> pyval) list \<times> (string \<times> pyval) list option
               \<times> (string \<times> pyval) list option)" where
  "build_data a c =
     (case numeric_field (nAtts a) ''nAttenuators'' [] of Inl e \<Rightarrow> Inl e | Inr d1 \<Rightarrow>
     (case numeric_field (nBursts a) ''nSubBursts'' d1 of Inl e \<Rightarrow> Inl e | Inr d2 \<Rightarrow>
     (case numeric_field (nAverages_arg a) ''nAverages'' d2 of Inl e \<Rightarrow> Inl e | Inr d3 \<Rightarrow>
     (case mask_field (txAnt a) ''txAntenna'' d3 of Inl e \<Rightarrow> Inl e | Inr d4 \<Rightarrow>
     (case mask_field (rxAnt a) ''rxAntenna'' d4 of Inl e \<Rightarrow> Inl e | Inr d5 \<Rightarrow>
     (case attn_field ''rfAttn'' (rfAttnSet a) (nAtts a) c d5 of
        Inl e \<Rightarrow> Inl e | Inr (d6, valid_rf) \<Rightarrow>
     (case attn_field ''afGain'' (afGainSet a) (nAtts a) c d6 of
        Inl e \<Rightarrow> Inl e | Inr (d7, valid_af) \<Rightarrow>
        Inr (case userData_arg a of PStr u \<Rightarrow> dict_set d7 ''userData'' (PStr u) | _ \<Rightarrow> d7,
             valid_rf, valid_af))))))))"

text \<open>
  The second half of \<^verbatim>\<open>set\<close>, on a 200: the values checked against the configuration
  just read from the response. For each item of \<^verbatim>\<open>valid_rf\<close> (\<^verbatim>\<open>valid_af\<close>) the index is
  the last character of the key minus one, and the argument of the debug call is
  formatted (with \<^verbatim>\<open>{:f}\<close>, whether or not debugging is on) before the comparison.
\<close>

definition seq_index :: "pyval list \<Rightarrow> int \<Rightarrow> exn + pyval" where
  "seq_index xs i =
     (if 0 \<le> i \<and> i < int (length xs) then Inr (xs ! nat i)
      else if i < 0 \<and> - int (length xs) \<le> i then Inr (xs ! nat (int (length xs) + i))
      else Inl IndexError)"

definition py_index :: "pyval \<Rightarrow> int \<Rightarrow> exn + pyval" where
  "py_index v i = (case v of PList xs \<Rightarrow> seq_index xs i | PTuple xs \<Rightarrow> seq_index xs i
                   | PStr s \<Rightarrow> seq_index (map (\<lambda>ch. PStr [ch]) s) i
                   | PDict d \<Rightarrow> Inl KeyError
                   | _ \<Rightarrow> Inl TypeError)"

definition format_f :: "pyval \<Rightarrow> exn + unit" where
  "format_f v = (if is_number v then Inr ()
                 else (case v of PStr _ \<Rightarrow> Inl ValueError | _ \<Rightarrow> Inl TypeError))"

fun verify_attn :: "(string \<times> pyval) list \<Rightarrow> pyval \<Rightarrow> exn + unit" where
  "verify_attn [] mem = Inr ()"
| "verify_attn (kv # rest) mem =
     (if fst kv = [] then Inl IndexError
      else (case find_idx [last (fst kv)] ''0123456789'' of
        None \<Rightarrow> Inl ValueError
      | Some d \<Rightarrow>
     (case py_index mem (int d - 1) of Inl e \<Rightarrow> Inl e | Inr m \<Rightarrow>
     (case format_f (snd kv) of Inl e \<Rightarrow> Inl e | Inr _ \<Rightarrow>
     (case format_f m of Inl e \<Rightarrow> Inl e | Inr _ \<Rightarrow>
        if \<not> py_eq (snd kv) m then Inl DidNotUpdateException
        else verify_attn rest mem)))))"

definition check_update ::
  "set_args \<Rightarrow> (string \<times> pyval) list option \<Rightarrow> (string \<times> pyval) list option \<Rightarrow> client
     \<Rightarrow> exn + unit" where
  "check_update a valid_rf valid_af c =
     (if nAtts a \<noteq> PNone \<and> \<not> py_eq (nAtts a) (nAttenuators c)
        then Inl DidNotUpdateException
      else if nBursts a \<noteq> PNone \<and> \<not> py_eq (nBursts a) (nSubBursts c)
        then Inl DidNotUpdateException
      else (case (case valid_rf of None \<Rightarrow> Inr () | Some items \<Rightarrow> verify_attn items (rfAttn c)) of
        Inl e \<Rightarrow> Inl e
      | Inr _ \<Rightarrow> (case valid_af of None \<Rightarrow> Inr () | Some items \<Rightarrow> verify_attn items (afGain c))))"

text \<open>
  \<^verbatim>\<open>Config.set\<close>. It returns \<^verbatim>\<open>self\<close> after a 200 whose checks pass, raises on a 400,
  and falls off its end (returning \<^verbatim>\<open>None\<close>) on any other status.
\<close>

datatype set_ret = RetSelf | RetNone

definition config_set :: "device \<Rightarrow> set_args \<Rightarrow> client \<Rightarrow> (exn + set_ret) \<times> client" where
  "config_set dev a c =
     (case config_get dev c of
        (Inl e, c1) \<Rightarrow> (Inl e, c1)
      | (Inr _, c1) \<Rightarrow>
     (case build_data a c1 of
        Inl e \<Rightarrow> (Inl e, c1)
      | Inr (data_obj, valid_rf, valid_af) \<Rightarrow>
     (case postRequest dev ''radar/config'' (Some data_obj) True c1 of
        (Inl e, c2) \<Rightarrow> (Inl e, c2)
      | (Inr resp, c2) \<Rightarrow>
          if status_code resp = 400 then
            (case json resp of
               Inl e \<Rightarrow> (Inl e, c2)
             | Inr response_json \<Rightarrow>
                 (case py_getitem response_json ''errorMessage'' of
                    Inl e \<Rightarrow> (Inl e, c2)
                  | Inr _ \<Rightarrow> (Inl BadResponseException, c2)))
          else if status_code resp = 200 then
            (case readResponse resp c2 of
               (Inl e, c3) \<Rightarrow> (Inl e, c3)
             | (Inr _, c3) \<Rightarrow>
                 (case check_update a valid_rf valid_af c3 of
                    Inl e \<Rightarrow> (Inl e, c3)
                  | Inr _ \<Rightarrow> (Inr RetSelf, c3)))
          else (Inr RetNone, c2))))"

section \<open>Starting a burst (\<^verbatim>\<open>Radar.burst\<close>, \<^verbatim>\<open>Radar.trialBurst\<close>)\<close>

definition VALID_BURST_STATUS_CODE :: int where
  "VALID_BURST_STATUS_CODE = 303"

text \<open>
  What both methods do with a response whose status is not 303: the body is parsed, and
  the exception is \<^verbatim>\<open>RadarBusyException\<close> with the message when there is an
  \<^verbatim>\<open>errorMessage\<close> key, and \<^verbatim>\<open>RadarBusyException\<close> without one otherwise.
\<close>

definition not_started :: "response \<Rightarrow> exn" where
  "not_started resp =
     (case json resp of
        Inl e \<Rightarrow> e
      | Inr response_json \<Rightarrow>
          (case py_in ''errorMessage'' response_json of
             Inl e \<Rightarrow> e
           | Inr has_message \<Rightarrow>
               if has_message then RadarBusyException else RadarBusyException))"

text \<open>
  \<^verbatim>\<open>burst\<close> and \<^verbatim>\<open>trialBurst\<close>, called without callbacks (the callbacks only add a call
  of \<^verbatim>\<open>results\<close> after a successful start). Both refresh the configuration first;
  \<open>burst_data\<close> is the data \<^verbatim>\<open>burst\<close> posts: the file name (\<^verbatim>\<open>None\<close> included) and
  the user data when it is a string.
  \<^verbatim>\<open>trialBurst\<close> wraps its POST in \<^verbatim>\<open>try ... except requests.exceptions.ConnectionError\<close>;
  \<^verbatim>\<open>burst\<close> has no such handler.
\<close>

definition burst_data :: "pyval \<Rightarrow> pyval \<Rightarrow> (string \<times> pyval) list" where
  "burst_data filename user_data =
     (let data_obj = [(''filename'', filename)]
      in case user_data of
           PStr u \<Rightarrow> dict_set data_obj ''userData'' (PStr u)
         | _ \<Rightarrow> data_obj)"

definition burst :: "device \<Rightarrow> pyval \<Rightarrow> pyval \<Rightarrow> client \<Rightarrow> (exn + unit) \<times> client" where
  "burst dev filename user_data c =
     (case config_get dev c of
        (Inl e, c1) \<Rightarrow> (Inl e, c1)
      | (Inr _, c1) \<Rightarrow>
          if filename \<noteq> PNone \<and> (case filename of PStr _ \<Rightarrow> False | _ \<Rightarrow> True)
          then (Inl ValueError, c1)
          else
            (case postRequest dev ''radar/burst'' (Some (burst_data filename user_data))
                    False c1 of
               (Inl e, c2) \<Rightarrow> (Inl e, c2)
             | (Inr resp, c2) \<Rightarrow>
                 if status_code resp \<noteq> VALID_BURST_STATUS_CODE
                 then (Inl (not_started resp), c2)
                 else (Inr (), c2)))"

definition trialBurst :: "device \<Rightarrow> client \<Rightarrow> (exn + unit) \<times> client" where
  "trialBurst dev c =
     (case config_get dev c of
        (Inl e, c1) \<Rightarrow> (Inl e, c1)
      | (Inr _, c1) \<Rightarrow>
          (case postRequest dev ''radar/trial-burst'' None False c1 of
             (Inl e, c2) \<Rightarrow>
               if e = RequestsConnectionError then (Inl RadarBusyException, c2)
               else (Inl e, c2)
           | (Inr resp, c2) \<Rightarrow>
               if status_code resp \<noteq> VALID_BURST_STATUS_CODE
               then (Inl (not_started resp), c2)
               else (Inr (), c2)))"

section \<open>Waiting for results (\<^verbatim>\<open>Radar.__getResults\<close>)\<close>











section \<open>Directory listings (\<^verbatim>\<open>Data.DirectoryListing\<close>)\<close>

text \<open>
  A \<^verbatim>\<open>FileObject\<close> is built from one entry of \<^verbatim>\<open>files\<close>: the timestamp is parsed first
  (\<open>valid_ts\<close> says which strings \<^verbatim>\<open>strptime\<close> accepts for
  \<^verbatim>\<open>"%Y-%m-%d %H:%M:%S"\<close>), then name, path and size are type-checked.
\<close>

record fileobj =
  f_name :: string
  f_path :: string
  f_size :: pyval
  f_date :: string

definition FileObject :: "(string \<Rightarrow> bool) \<Rightarrow> pyval \<Rightarrow> exn + fileobj" where
  "FileObject valid_ts resp_json =
     (case py_getitem resp_json ''timestamp'' of Inl e \<Rightarrow> Inl e | Inr ts \<Rightarrow>
     (case ts of
        PStr t \<Rightarrow>
          if \<not> valid_ts t then Inl ValueError
          else
            (case py_getitem resp_json ''name'' of Inl e \<Rightarrow> Inl e | Inr nm \<Rightarrow>
            (case nm of PStr n \<Rightarrow>
              (case py_getitem resp_json ''path'' of Inl e \<Rightarrow> Inl e | Inr pa \<Rightarrow>
              (case pa of PStr pth \<Rightarrow>
                (case py_getitem resp_json ''size'' of Inl e \<Rightarrow> Inl e | Inr sz \<Rightarrow>
                   if is_number sz
                   then Inr \<lparr>f_name = n, f_path = pth, f_size = sz, f_date = t\<rparr>
                   else Inl ValueError)
               | _ \<Rightarrow> Inl ValueError))
             | _ \<Rightarrow> Inl ValueError))
      | _ \<Rightarrow> Inl TypeError))"

text \<open>
  A float is a double: 53 significant bits, exponents down to that of \<open>2 ^ - 1074\<close>,
  magnitudes below \<open>2 ^ 1024\<close>. \<open>ilog2 x\<close> is the exponent of the power of two at or
  below a positive \<open>x\<close>; \<open>round_double x\<close> is the double nearest to \<open>x\<close>, a tie going to
  the even significand, before the test for overflow; \<open>float_of\<close> adds that test.
\<close>

definition ilog2 :: "real \<Rightarrow> int" where
  "ilog2 x = (if 1 \<le> x then int (floorlog 2 (nat \<lfloor>x\<rfloor>)) - 1
              else - int (floorlog 2 (nat (\<lceil>1 / x\<rceil> - 1))))"

definition round_double :: "real \<Rightarrow> real" where
  "round_double x =
     (if x = 0 then 0
      else (let e = max (ilog2 \<bar>x\<bar> - 52) (- 1074)
            in py_round (x / 2 powi e) * 2 powi e))"

definition float_of :: "real \<Rightarrow> exn + real" where
  "float_of x = (let r = round_double x in if \<bar>r\<bar> \<ge> 2 ^ 1024 then Inl OverflowError else Inr r)"

text \<open>
  \<^verbatim>\<open>a / b\<close> on numbers (true division), as \<^verbatim>\<open>load\<close> uses it: inside \<^verbatim>\<open>math.ceil\<close> and
  \<^verbatim>\<open>math.floor\<close>, which are \<open>ceiling\<close> and \<open>floor\<close> on a finite float. Two integers
  (or booleans) give the exact quotient rounded once, or an \<^verbatim>\<open>OverflowError\<close> when
  that is too large for a float. With a float among the operands the other one is
  made a float first (an \<^verbatim>\<open>OverflowError\<close> when it is too large) and the quotient of the
  two floats is rounded; a quotient too large is then the infinity, which \<^verbatim>\<open>math.ceil\<close>
  and \<^verbatim>\<open>math.floor\<close> refuse with \<^verbatim>\<open>OverflowError\<close> in their turn. A zero divisor is a
  \<^verbatim>\<open>ZeroDivisionError\<close>.
\<close>

definition is_float :: "pyval \<Rightarrow> bool" where
  "is_float v = (case v of PFloat _ \<Rightarrow> True | _ \<Rightarrow> False)"

definition to_float :: "pyval \<Rightarrow> real \<Rightarrow> exn + real" where
  "to_float v x = (if is_float v then Inr x else float_of x)"

definition py_truediv :: "pyval \<Rightarrow> pyval \<Rightarrow> exn + real" where
  "py_truediv a b =
     (case (num_of a, num_of b) of
        (Some x, Some y) \<Rightarrow>
          if is_float a \<or> is_float b then
            (case to_float a x of Inl e \<Rightarrow> Inl e | Inr fx \<Rightarrow>
            (case to_float b y of Inl e \<Rightarrow> Inl e | Inr fy \<Rightarrow>
               if fy = 0 then Inl ZeroDivisionError else float_of (fx / fy)))
          else if y = 0 then Inl ZeroDivisionError else float_of (x / y)
      | _ \<Rightarrow> Inl TypeError)"

record listing =
  l_path :: pyval
  numObjectsInDir :: pyval
  l_index :: pyval
  pageSize :: pyval
  pages :: int
  page :: int
  numObjectsInList :: pyval
  files :: "fileobj list"
  directories :: "fileobj list"

text \<open>
  The loop over \<^verbatim>\<open>resp_json["files"]\<close>: an entry whose \<^verbatim>\<open>dir\<close> is true goes to
  \<^verbatim>\<open>directories\<close>, any other to \<^verbatim>\<open>files\<close>.
\<close>

fun load_files :: "(string \<Rightarrow> bool) \<Rightarrow> pyval list \<Rightarrow> listing \<Rightarrow> exn + listing" where
  "load_files valid_ts [] l = Inr l"
| "load_files valid_ts (file # rest) l =
     (case py_getitem file ''dir'' of Inl e \<Rightarrow> Inl e | Inr is_dir \<Rightarrow>
     (case FileObject valid_ts file of Inl e \<Rightarrow> Inl e | Inr fo \<Rightarrow>
        load_files valid_ts rest
          (if py_truthy is_dir then l\<lparr>directories := directories l @ [fo]\<rparr>
           else l\<lparr>files := files l @ [fo]\<rparr>)))"

definition load :: "(string \<Rightarrow> bool) \<Rightarrow> pyval \<Rightarrow> exn + listing" where
  "load valid_ts resp_json =
     (case py_in ''path'' resp_json of Inl e \<Rightarrow> Inl e | Inr has_path \<Rightarrow>
      if \<not> has_path then Inl BadResponseException else
     (case py_getitem resp_json ''path'' of Inl e \<Rightarrow> Inl e | Inr pth \<Rightarrow>
     (case py_in ''files'' resp_json of Inl e \<Rightarrow> Inl e | Inr has_files \<Rightarrow>
      if \<not> has_files then Inl BadResponseException else
     (case py_getitem resp_json ''length'' of Inl e \<Rightarrow> Inl e | Inr n_total \<Rightarrow>
     (case py_getitem resp_json ''index'' of Inl e \<Rightarrow> Inl e | Inr idx \<Rightarrow>
     (case py_getitem resp_json ''list'' of Inl e \<Rightarrow> Inl e | Inr psize \<Rightarrow>
     (case py_truediv n_total psize of Inl e \<Rightarrow> Inl e | Inr q_pages \<Rightarrow>
     (case py_truediv idx psize of Inl e \<Rightarrow> Inl e | Inr q_page \<Rightarrow>
     (case py_getitem resp_json ''fileCount'' of Inl e \<Rightarrow> Inl e | Inr cnt \<Rightarrow>
     (case py_getitem resp_json ''files'' of Inl e \<Rightarrow> Inl e | Inr fs \<Rightarrow>
        (let l = \<lparr>l_path = pth, numObjectsInDir = n_total, l_index = idx, pageSize = psize,
                  pages = \<lceil>q_pages\<rceil>, page = \<lfloor>q_page\<rfloor>, numObjectsInList = cnt,
                  files = [], directories = []\<rparr>
         in case fs of
              PList entries \<Rightarrow> load_files valid_ts entries l
            | PTuple entries \<Rightarrow> load_files valid_ts entries l
            | PDict dd \<Rightarrow> load_files valid_ts (map (\<lambda>kv. PStr (fst kv)) dd) l
            | PStr str \<Rightarrow> load_files valid_ts (map (\<lambda>ch. PStr [ch]) str) l
            | _ \<Rightarrow> Inl TypeError)))))))))))"

section \<open>The position controller (\<^verbatim>\<open>ApRES_RTK_SAR\<close>)\<close>

text \<open>
  The attribute \<^verbatim>\<open>stat\<close> holds one of three strings; the reference point is \<^verbatim>\<open>[]\<close>
  (here \<open>None\<close>) until the first fix. \<open>apres\<close> is the state of \<^verbatim>\<open>self.ApRES\<close>.
  \<open>log\<close> is what the controller has said (\<^verbatim>\<open>os.system("say ...")\<close>), written to
  \<^verbatim>\<open>InfoLogger\<close> and slept, oldest first; \<^verbatim>\<open>print\<close> output is left out.
\<close>

datatype acq_state = MovingForward | MovingBackward | WellPositioned

datatype event =
    Say string
  | SayRange real real
  | LogInfo string
  | LogWarning string
  | LogError string
  | LogCritical string
  | LogPointInfo int string real real real real int
  | Sleep real

record ctrl =
  stat :: acq_state
  refLat :: "real option"
  refLon :: "real option"
  fix_time :: string
  lat :: real
  lon :: real
  alt :: real
  iquality :: int
  moveDist :: real
  rmndst :: real
  RTKsens :: bool
  stepsize :: real
  min_err :: real
  max_err :: real
  nPnt :: int
  DownloadFile :: bool
  apres :: client
  log :: "event list"

text \<open>
  What the controller reads from outside: the radar, \<^verbatim>\<open>time.perf_counter()\<close>
  (\<open>perf_counter env p k\<close> is the \<open>k\<close>-th reading taken while point \<open>p\<close> is acquired),
  the time stamp put into the file name of point \<open>p\<close>, \<^verbatim>\<open>os.path.exists\<close>, and the
  \<^verbatim>\<open>haversine\<close> function of the package of that name (metres between two
  latitude/longitude pairs).
\<close>

record env =
  radar :: device
  perf_counter :: "int \<Rightarrow> nat \<Rightarrow> real"
  stamp :: "int \<Rightarrow> string"
  path_exists :: "string \<Rightarrow> bool"
  haversine :: "real \<times> real \<Rightarrow> real \<times> real \<Rightarrow> real"

definition say :: "event list \<Rightarrow> ctrl \<Rightarrow> ctrl" where
  "say evs c = c\<lparr>log := log c @ evs\<rparr>"

definition TRY_BURST_TIMEOUT :: real where
  "TRY_BURST_TIMEOUT = 30"

text \<open>
  The retry loop of \<^verbatim>\<open>robustBurst\<close>. \<open>k\<close> counts the readings of the clock taken so
  far. \<^verbatim>\<open>except apreshttp.RadarBusyException\<close> and \<^verbatim>\<open>except ConnectionError\<close> (the
  built-in class: the module imports no other of that name) go round again; any other
  exception leaves the method. The result is the value of \<^verbatim>\<open>last_burst\<close> and the number
  of readings taken. Only the clock ends the loop, so it is a partial function.
\<close>

partial_function (option) try_burst ::
  "env \<Rightarrow> string \<Rightarrow> real \<Rightarrow> nat \<Rightarrow> nat \<Rightarrow> ctrl \<Rightarrow> ((exn + real \<times> nat) \<times> ctrl) option"
where
  "try_burst en fn last_burst k attempts c =
     (if perf_counter en (nPnt c) k - last_burst < TRY_BURST_TIMEOUT then
        (let c1 = say [LogInfo (''burst started (attempt: '' @ str_nat attempts @ '')'')] c
         in case burst (radar en) (PStr fn) PNone (apres c1) of
              (Inr _, a) \<Rightarrow>
                Some (Inr (perf_counter en (nPnt c) (k + 1), k + 2),
                      say [LogInfo ''burst finished''] (c1\<lparr>apres := a\<rparr>))
            | (Inl e, a) \<Rightarrow>
                if e = RadarBusyException then
                  try_burst en fn last_burst (k + 1) (attempts + 1)
                    (say [LogWarning ''radar busy, trying again'',
                          Say ''radar busy trying again''] (c1\<lparr>apres := a\<rparr>))
                else if e = ConnectionError then
                  try_burst en fn last_burst (k + 1) (attempts + 1)
                    (say [LogWarning ''connection to radar rejected, trying again'',
                          Say ''hold on''] (c1\<lparr>apres := a\<rparr>))
                else Some (Inl e, c1\<lparr>apres := a\<rparr>))
      else Some (Inr (last_burst, k + 1), c))"

text \<open>
  \<^verbatim>\<open>Data.download\<close> into the working directory, and the download block of
  \<^verbatim>\<open>robustBurst\<close>, whose bare \<^verbatim>\<open>except\<close> turns every failure into a log entry. (Failures
  of the local file system after the GET are not modelled.)
\<close>

definition basename :: "string \<Rightarrow> string" where
  "basename p = rev (takeWhile (\<lambda>ch. ch \<noteq> CHR ''/'') (rev p))"

definition download :: "env \<Rightarrow> string \<Rightarrow> client \<Rightarrow> (exn + unit) \<times> client" where
  "download en path a =
     (if path_exists en (basename path) then (Inl FileExistsError, a)
      else (case getRequest (radar en) ''data/download'' (Some [(''path'', PStr path)]) a of
              (Inl e, a1) \<Rightarrow> (Inl e, a1)
            | (Inr _, a1) \<Rightarrow> (Inr (), a1)))"

definition download_block :: "env \<Rightarrow> string \<Rightarrow> ctrl \<Rightarrow> ctrl" where
  "download_block en fn c =
     (if DownloadFile c then
        (if \<not> path_exists en fn then
           (let c1 = say [LogInfo ''download started''] c
            in case download en (''Survey/'' @ fn) (apres c1) of
                 (Inl e, a) \<Rightarrow>
                   say [LogError ''download failed'', Say ''download failed''] (c1\<lparr>apres := a\<rparr>)
               | (Inr _, a) \<Rightarrow>
                   say [LogInfo ''download finished'', Say ''download finished'']
                     (c1\<lparr>apres := a\<rparr>))
         else c)
      else c)"

text \<open>
  \<^verbatim>\<open>robustBurst\<close>. After the loop, an elapsed time of 30 seconds or more since
  \<^verbatim>\<open>last_burst\<close> is reported as critical; whatever happened, the method then waits 28
  times one second (the call of \<^verbatim>\<open>results\<close> is commented out), runs the download block,
  logs the point and returns \<^verbatim>\<open>results_obj\<close>, which is always \<^verbatim>\<open>None\<close>.
\<close>

definition point_log :: "string \<Rightarrow> ctrl \<Rightarrow> event list" where
  "point_log fn c =
     [LogInfo ''>>>>>>>>>>>>>>>>>>>>>>>>>>>>>>>>>>>>>>>>>>>>>>>>>>>>'',
      LogInfo (''#PointName$'' @ fn),
      LogPointInfo (nPnt c) (fix_time c) (lat c) (lon c) (alt c) (moveDist c) (iquality c),
      LogInfo ''<<<<<<<<<<<<<<<<<<<<<<<<<<<<<<<<<<<<<<<<<<<<<<<<<<<<'',
      Say ''DONE'', Sleep 1, Say ''GO'']"

definition after_loop :: "env \<Rightarrow> string \<Rightarrow> real \<Rightarrow> nat \<Rightarrow> ctrl \<Rightarrow> ctrl" where
  "after_loop en fn last_burst k c1 =
     (let c2 = (if perf_counter en (nPnt c1) k - last_burst \<ge> TRY_BURST_TIMEOUT
                then say [LogCritical ''burst failed after trying for 30 seconds'',
                          LogCritical ''not getting results'',
                          Say ''fatal error'', Say ''restart the system''] c1
                else c1);
          c3 = say (Say ''waiting'' # replicate 28 (Sleep 1)) c2;
          c4 = download_block en fn c3
      in say (point_log fn c4) c4)"

definition robustBurst :: "env \<Rightarrow> ctrl \<Rightarrow> ((exn + pyval) \<times> ctrl) option" where
  "robustBurst en c =
     (let c0 = (say [Say ''Shooting''] c)\<lparr>nPnt := nPnt c + 1\<rparr>;
          fn = str_int (nPnt c0) @ ''_SARRTK_'' @ stamp en (nPnt c0) @ ''.dat'';
          last_burst = perf_counter en (nPnt c0) 0
      in case try_burst en fn last_burst 1 1 c0 of
           None \<Rightarrow> None
         | Some (Inl e, c1) \<Rightarrow> Some (Inl e, c1)
         | Some (Inr (lb, k), c1) \<Rightarrow> Some (Inr PNone, after_loop en fn lb k c1))"

text \<open>
  \<^verbatim>\<open>updateDistance\<close>. Without a reference point the fix becomes the reference; with one,
  and an acceptable fix quality, the displacement in centimetres is the rounded
  haversine distance times 100 (a reference with only one coordinate set would make
  \<^verbatim>\<open>haversine\<close> fail); otherwise the controller complains and sleeps, and the
  displacement keeps its last value. (The throttled \<^verbatim>\<open>print\<close> of the remaining distance
  and its timer are left out.)
\<close>

definition updateDistance :: "env \<Rightarrow> ctrl \<Rightarrow> exn + ctrl" where
  "updateDistance en c =
     (let RTKcond = (if RTKsens c then iquality c = 4 \<or> iquality c = 5 else True)
      in if refLon c = None \<and> refLat c = None then
           Inr (c\<lparr>refLat := Some (lat c), refLon := Some (lon c), moveDist := 0\<rparr>)
         else if RTKcond then
           (case (refLat c, refLon c) of
              (Some rlat, Some rlon) \<Rightarrow>
                (let md = py_round (haversine en (lat c, lon c) (rlat, rlon) * 100)
                 in Inr (c\<lparr>moveDist := md, rmndst := py_round (stepsize c - md)\<rparr>))
            | _ \<Rightarrow> Inl TypeError)
         else Inr (say [Say ''RTK is not available'', LogError ''rtk is not available'',
                        Sleep 2] c))"

text \<open>
  \<^verbatim>\<open>triggerApRES\<close>. \<open>transitions\<close> is its first two blocks (overshoot while moving
  forward, undershoot while moving backward), \<open>in_band\<close> the test of the third;
  \<open>evaluate\<close> is the method up to the call of \<^verbatim>\<open>robustBurst\<close>, and says whether that
  call is made. Inside the band the state becomes \<^verbatim>\<open>"well positioned"\<close>,
  \<^verbatim>\<open>robustBurst\<close> runs, and after it the fix becomes the reference and the state
  \<^verbatim>\<open>"moving forward"\<close> again. Nothing happens unless the fix quality is 4 or 5.
\<close>

definition transitions :: "ctrl \<Rightarrow> ctrl" where
  "transitions c =
     (let c1 = (if stat c = MovingForward \<and> moveDist c > max_err c
                then say [Say ''Wait'', Say ''Stop'', Say ''Go Back'',
                          SayRange (py_round (moveDist c - max_err c))
                                   (py_round (moveDist c - min_err c))]
                       (c\<lparr>stat := MovingBackward\<rparr>)
                else c)
      in if stat c1 = MovingBackward \<and> moveDist c1 < min_err c1
         then say [Say ''Wait'', Say ''Stop'', Say ''Go Forward'',
                   SayRange (py_round (min_err c1 - moveDist c1))
                            (py_round (max_err c1 - moveDist c1))]
                (c1\<lparr>stat := MovingForward\<rparr>)
         else c1)"

definition in_band :: "ctrl \<Rightarrow> bool" where
  "in_band c = (moveDist c > min_err c \<and> moveDist c < max_err c)"

definition evaluate :: "ctrl \<Rightarrow> ctrl \<times> bool" where
  "evaluate c =
     (let c2 = transitions c
      in if stat c2 \<noteq> WellPositioned \<and> in_band c2
         then (say [Say ''Wait'', Sleep 1, Say ''Stop''] (c2\<lparr>stat := WellPositioned\<rparr>), True)
         else (c2, False))"

definition triggerApRES :: "env \<Rightarrow> ctrl \<Rightarrow> ((exn + unit) \<times> ctrl) option" where
  "triggerApRES en c =
     (if iquality c = 4 \<or> iquality c = 5 then
        (case evaluate c of
           (c3, True) \<Rightarrow>
             (case robustBurst en c3 of
                None \<Rightarrow> None
              | Some (Inl e, c4) \<Rightarrow> Some (Inl e, c4)
              | Some (Inr _, c4) \<Rightarrow>
                  Some (Inr (), c4\<lparr>refLat := Some (lat c4), refLon := Some (lon c4),
                                   stat := MovingForward\<rparr>))
         | (c2, False) \<Rightarrow> Some (Inr (), c2))
      else Some (Inr (), c))"

text \<open>
  One turn of the main loop of \<^verbatim>\<open>Run.py\<close>: \<^verbatim>\<open>updateGPS\<close> stores the parsed fix, then
  \<^verbatim>\<open>updateDistance\<close> and \<^verbatim>\<open>triggerApRES\<close> run.
\<close>

record gpsfix =
  g_time :: string
  g_lat :: real
  g_lon :: real
  g_alt :: real
  g_quality :: int

definition updateGPS :: "gpsfix \<Rightarrow> ctrl \<Rightarrow> ctrl" where
  "updateGPS g c = c\<lparr>fix_time := g_time g, lat := g_lat g, lon := g_lon g, alt := g_alt g,
                      iquality := g_quality g\<rparr>"

definition cycle :: "env \<Rightarrow> gpsfix \<Rightarrow> ctrl \<Rightarrow> ((exn + unit) \<times> ctrl) option" where
  "cycle en g c =
     (case updateDistance en (updateGPS g c) of
        Inl e \<Rightarrow> Some (Inl e, updateGPS g c)
      | Inr c1 \<Rightarrow> triggerApRES en c1)"

section \<open>Concrete inputs\<close>

text \<open>
  A listing of 20 objects requested from index 16 with a page size of 16, holding one
  file.
\<close>

definition example_dir_json :: pyval where
  "example_dir_json =
     PDict [(''path'', PStr ''Survey''), (''length'', PInt 20), (''index'', PInt 16),
            (''list'', PInt 16), (''fileCount'', PInt 4),
            (''files'', PList [PDict [(''dir'', PBool False),
                (''timestamp'', PStr ''2021-05-18 10:00:00''), (''name'', PStr ''a.dat''),
                (''path'', PStr ''Survey/a.dat''), (''size'', PInt 1024)]])]"

text \<open>
  An empty listing of a directory said to hold \<open>2 ^ 53 + 1\<close> objects, with a page size
  of 1.
\<close>

definition big_dir_json :: pyval where
  "big_dir_json =
     PDict [(''path'', PStr ''Survey''), (''length'', PInt 9007199254740993),
            (''index'', PInt 0), (''list'', PInt 1), (''fileCount'', PInt 0),
            (''files'', PList [])]"

text \<open>
  A client as \<^verbatim>\<open>API("192.168.1.1")\<close> with the key of \<^verbatim>\<open>Run.py\<close> leaves it, and a radar
  that answers every request with status 200 and the same configuration: it accepts
  a POST and changes nothing.
\<close>

definition example_client :: client where
  "example_client =
     \<lparr>api_root = ''http://192.168.1.1'', timeout = 30, resultsInterval = 2,
      requestCount = 0, apiKey = ''18052021'', nAttenuators = PNone, nSubBursts = PNone,
      nAverages = PNone, afGain = PList [], rfAttn = PList [], userData = PNone,
      txAntenna = PNone, rxAntenna = PNone, sent = []\<rparr>"

definition example_config_json :: pyval where
  "example_config_json =
     PDict [(''nAttenuators'', PInt 1), (''nSubBursts'', PInt 5), (''nAverages'', PInt 0),
            (''rfAttn'', PList [PInt 25]), (''afGain'', PList [PInt (- 14)]),
            (''userData'', PStr ''''),
            (''txAntenna'',
               PList [PInt 1, PInt 1, PInt 0, PInt 0, PInt 0, PInt 0, PInt 0, PInt 0]),
            (''rxAntenna'',
               PList [PInt 1, PInt 0, PInt 0, PInt 0, PInt 0, PInt 0, PInt 0, PInt 0])]"

definition dev_keeps_config :: device where
  "dev_keeps_config n rq =
     Inr \<lparr>status_code = 200, content_type = Some ''application/json'',
          json_body = Some example_config_json\<rparr>"

definition zero_mask :: pyval where
  "zero_mask = PTuple [PInt 0, PInt 0, PInt 0, PInt 0, PInt 0, PInt 0, PInt 0, PInt 0]"

definition last_mask :: pyval where
  "last_mask = PTuple [PInt 0, PInt 0, PInt 0, PInt 0, PInt 0, PInt 0, PInt 0, PInt 1]"

text \<open>
  The responses and radars used below: the configuration of \<open>example_config_json\<close>
  (two transmit antennas, one receive antenna, 5 sub-bursts, no averages, one
  attenuator); a radar that refuses to start a burst with status 403 and a given JSON
  body; one whose POSTs fail in transport; one that starts every burst; one that keeps
  reporting a burst in progress.
\<close>

definition config_resp :: response where
  "config_resp = \<lparr>status_code = 200, content_type = Some ''application/json'',
                   json_body = Some example_config_json\<rparr>"

definition dev_rejects :: "pyval \<Rightarrow> device" where
  "dev_rejects body n rq =
     (if req_method rq = GET then Inr config_resp
      else Inr \<lparr>status_code = 403, content_type = Some ''application/json'',
                json_body = Some body\<rparr>)"

definition dev_unreachable :: device where
  "dev_unreachable n rq =
     (if req_method rq = GET then Inr config_resp else Inl RequestsConnectionError)"

definition dev_starts :: device where
  "dev_starts n rq =
     (if req_method rq = GET then Inr config_resp
      else Inr \<lparr>status_code = 303, content_type = None, json_body = None\<rparr>)"





text \<open>
  \<open>frame c c'\<close>: the controller \<open>c'\<close> differs from \<open>c\<close> at most in the state of the radar
  client and in the log.
\<close>

definition frame :: "ctrl \<Rightarrow> ctrl \<Rightarrow> bool" where
  "frame c c' = (c'\<lparr>apres := apres c, log := log c\<rparr> = c)"

text \<open>
  The test of the specification that feeds the trigger a sequence of displacements:
  each displacement is stored in \<^verbatim>\<open>moveDist\<close> and \<^verbatim>\<open>triggerApRES\<close> runs. \<open>observe\<close> is what
  a turn does before any acquisition: the state it moves to, and whether it calls
  \<^verbatim>\<open>robustBurst\<close>. The simulation records, for every turn, that observation together
  with the state in which \<^verbatim>\<open>triggerApRES\<close> leaves the controller when it returns. It
  stops (\<open>None\<close>) when a turn raises or does not return.
\<close>

definition observe :: "ctrl \<Rightarrow> acq_state \<times> bool" where
  "observe c =
     (if iquality c = 4 \<or> iquality c = 5
      then (stat (fst (evaluate c)), snd (evaluate c))
      else (stat c, False))"

record turn =
  went_to :: acq_state
  acquired :: bool
  left_in :: acq_state

fun simulate :: "env \<Rightarrow> real list \<Rightarrow> ctrl \<Rightarrow> (turn list \<times> ctrl) option" where
  "simulate en [] c = Some ([], c)"
| "simulate en (d # ds) c =
     (case triggerApRES en (c\<lparr>moveDist := d\<rparr>) of
        Some (Inr u, c2) \<Rightarrow>
          (case simulate en ds c2 of
             Some (obs, c3) \<Rightarrow>
               Some (\<lparr>went_to = fst (observe (c\<lparr>moveDist := d\<rparr>)),
                      acquired = snd (observe (c\<lparr>moveDist := d\<rparr>)),
                      left_in = stat c2\<rparr> # obs, c3)
           | None \<Rightarrow> None)
      | _ \<Rightarrow> None)"

text \<open>
  An environment in which every burst starts at once and the clock advances one second
  per reading (the distance function is a stand-in that vanishes on equal points), and
  the controller as \<^verbatim>\<open>Run.py\<close> sets it up after the first shot, with the thresholds
  148.5 and 160.5 of a 150 cm step.
\<close>

definition env_ok :: env where
  "env_ok = \<lparr>radar = dev_starts, perf_counter = (\<lambda>p k. real k),
             stamp = (\<lambda>p. ''20210518_100000''), path_exists = (\<lambda>f. False),
             haversine = (\<lambda>p q. 100000 * (\<bar>fst p - fst q\<bar> + \<bar>snd p - snd q\<bar>))\<rparr>"

definition ctrl0 :: ctrl where
  "ctrl0 = \<lparr>stat = MovingForward, refLat = Some (- 70.5), refLon = Some (- 8.25),
            fix_time = ''100000.0'', lat = - 70.5, lon = - 8.25, alt = 40, iquality = 4,
            moveDist = 0, rmndst = 150, RTKsens = True, stepsize = 150, min_err = 148.5,
            max_err = 160.5, nPnt = 1, DownloadFile = False, apres = example_client,
            log = []\<rparr>"

text \<open>
  A fix 1.5 m (in the stand-in distance) from the reference point of \<open>ctrl0\<close>; the
  environment of \<open>env_ok\<close> with a radar that cannot be reached for the POST of a burst;
  and one whose radar refuses every burst as busy while the clock advances 10 seconds
  per reading.
\<close>

definition fix0 :: gpsfix where
  "fix0 = \<lparr>g_time = ''100001.0'', g_lat = - 70.499985, g_lon = - 8.25, g_alt = 40,
           g_quality = 4\<rparr>"

definition env_unreachable :: env where
  "env_unreachable = env_ok\<lparr>radar := dev_unreachable\<rparr>"

definition env_busy :: env where
  "env_busy = env_ok\<lparr>radar := dev_rejects (PDict []), perf_counter := (\<lambda>p k. 10 * real k)\<rparr>"

text \<open>
  The condition of updateDistance on the fix quality.
\<close>

definition rtk_cond :: "ctrl \<Rightarrow> bool" where
  "rtk_cond c = (if RTKsens c then iquality c = 4 \<or> iquality c = 5 else True)"

text \<open>
  What \<open>evaluate\<close> computes, as a function of the four values it reads: the state, the
  displacement and the two ends of the band (lemma \<open>evaluate_next_obs\<close>).
\<close>

definition next_obs :: "acq_state \<Rightarrow> real \<Rightarrow> real \<Rightarrow> real \<Rightarrow> acq_state \<times> bool" where
  "next_obs s d lo hi =
     (let s1 = (if s = MovingForward \<and> d > hi then MovingBackward else s);
          s2 = (if s1 = MovingBackward \<and> d < lo then MovingForward else s1)
      in if s2 \<noteq> WellPositioned \<and> lo < d \<and> d < hi
         then (WellPositioned, True) else (s2, False))"

text \<open>
  A controller whose band holds the displacement 0 (its lower end is negative), and a
  fix at the reference point of \<open>ctrl0\<close>.
\<close>

definition ctrl_wide :: ctrl where
  "ctrl_wide = ctrl0\<lparr>min_err := - 1\<rparr>"

definition fix_ref :: gpsfix where
  "fix_ref = fix0\<lparr>g_lat := - 70.5\<rparr>"

section \<open>Properties of the root URL\<close>

lemma find_idx_startswith:
  "find_idx sub s = Some i \<Longrightarrow> startswith (drop i s) sub"
proof (induction s arbitrary: i)
  case Nil
  then show ?case by (simp add: startswith_def split: if_splits)
next
  case (Cons c cs)
  show ?case
  proof (cases "startswith (c # cs) sub")
    case True
    with Cons.prems show ?thesis by simp
  next
    case False
    with Cons.prems obtain j where "find_idx sub cs = Some j" "i = Suc j"
      by auto
    with Cons.IH show ?thesis by simp
  qed
qed

text \<open>
  Before the trailing character is removed, the root always starts with
  \<^verbatim>\<open>"http://"\<close>; the removal is what can break the shape.
\<close>

lemma assignRootURL_cases:
  "assignRootURL (PStr r) = Inr out \<Longrightarrow>
     \<exists>root1. startswith root1 ''http://'' \<and>
       out = (if last root1 = CHR ''/'' then butlast root1 else root1)"
proof -
  assume a: "assignRootURL (PStr r) = Inr out"
  define root1 where "root1 =
    (if py_find r ''http://'' > 0 then drop (nat (py_find r ''http://'')) r
     else if py_find r ''http://'' = - 1 then ''http://'' @ r else r)"
  have sw: "startswith root1 ''http://''"
  proof (cases "find_idx ''http://'' r")
    case None
    then show ?thesis by (simp add: root1_def py_find_def startswith_def)
  next
    case (Some i)
    from find_idx_startswith[OF Some] have "startswith (drop i r) ''http://''" .
    moreover have "nat (int i) = i" by simp
    ultimately show ?thesis using Some
      by (cases "i = 0") (simp_all add: root1_def py_find_def del: nat_int)
  qed
  from a have "out = (if last root1 = CHR ''/'' then butlast root1 else root1)"
    by (auto simp: assignRootURL_def Let_def root1_def split: if_splits)
  with sw show ?thesis by blast
qed

text \<open>
  C7. The claim: every accepted root is stored starting with \<^verbatim>\<open>http://\<close> and not ending
  with \<^verbatim>\<open>/\<close>, so that request URLs have exactly one slash between the root and
  \<^verbatim>\<open>api\<close>. The code removes a single trailing character only: a root written with two
  trailing slashes keeps one, and its request URLs have a double slash; the bare
  \<^verbatim>\<open>http://\<close> (or the empty string) loses a slash of the scheme itself.
\<close>

theorem assignRootURL_trailing_slash_kept:
  "assignRootURL (PStr ''192.168.1.1//'') = Inr ''http://192.168.1.1/''
   \<and> endswith ''http://192.168.1.1/'' ''/''
   \<and> formCompleteURL ''http://192.168.1.1/'' ''radar/burst''
       = ''http://192.168.1.1//api/radar/burst''
   \<and> assignRootURL (PStr '''') = Inr ''http:/''
   \<and> \<not> startswith ''http:/'' ''http://''"
  by (simp add: assignRootURL_def py_find_def startswith_def endswith_def
      formCompleteURL_def)

section \<open>Properties of rounding\<close>

lemma py_round_int: "py_round (of_int n) = of_int n"
  by (simp add: py_round_def)


lemma py_round_error: "\<bar>py_round x - x\<bar> \<le> 1 / 2"
  by (auto simp: py_round_def Let_def)

lemma ilog2_bounds:
  assumes "0 < x"
  shows "2 powi (ilog2 x) \<le> x \<and> x < 2 powi (ilog2 x + 1)"
proof (cases "1 \<le> x")
  case True
  define n where "n = nat \<lfloor>x\<rfloor>"
  have n: "0 < n" "real n \<le> x" "x < real n + 1"
    using True by (auto simp: n_def)
  define L where "L = floorlog 2 n"
  from floorlog_bounds[of n 2] n(1) have b: "2 ^ (L - 1) \<le> n" "n < 2 ^ L"
    by (simp_all add: L_def)
  have L: "0 < L" using b(2) n(1) by (cases L) auto
  have i: "ilog2 x = int (L - 1)" using True L by (simp add: ilog2_def n_def L_def)
  have "real (2 ^ (L - 1)) \<le> real n" using b(1) by (rule of_nat_mono)
  then have r1: "(2::real) ^ (L - 1) \<le> real n" by simp
  have "Suc n \<le> 2 ^ L" using b(2) by simp
  then have "real (Suc n) \<le> real (2 ^ L)" by (rule of_nat_mono)
  then have r2: "real n + 1 \<le> 2 ^ L" by simp
  have i1: "ilog2 x + 1 = int L" using i L by simp
  have p1: "2 powi (ilog2 x) = (2::real) ^ (L - 1)" unfolding i by simp
  have p2: "2 powi (ilog2 x + 1) = (2::real) ^ L" unfolding i1 by simp
  have "2 powi (ilog2 x) \<le> x" unfolding p1 using r1 n(2) by linarith
  moreover have "x < 2 powi (ilog2 x + 1)" unfolding p2 using r2 n(3) by linarith
  ultimately show ?thesis by blast
next
  case False
  then have x1: "x < 1" by simp
  define m where "m = nat (\<lceil>1 / x\<rceil> - 1)"
  have inv: "1 < 1 / x" using assms x1 by simp
  then have c2: "2 \<le> \<lceil>1 / x\<rceil>" by linarith
  have m: "0 < m" "real m < 1 / x" "1 / x \<le> real m + 1"
    using c2 by (auto simp: m_def) linarith+
  define L where "L = floorlog 2 m"
  from floorlog_bounds[of m 2] m(1) have b: "2 ^ (L - 1) \<le> m" "m < 2 ^ L"
    by (simp_all add: L_def)
  have L: "0 < L" using b(2) m(1) by (cases L) auto
  have i: "ilog2 x = - int L" using False by (simp add: ilog2_def m_def L_def)
  have "real (2 ^ (L - 1)) \<le> real m" using b(1) by (rule of_nat_mono)
  then have r1: "(2::real) ^ (L - 1) \<le> real m" by simp
  have "Suc m \<le> 2 ^ L" using b(2) by simp
  then have "real (Suc m) \<le> real (2 ^ L)" by (rule of_nat_mono)
  then have r2: "real m + 1 \<le> 2 ^ L" by simp
  have up: "1 / x \<le> 2 ^ L" using m(3) r2 by linarith
  have lo: "(2::real) ^ (L - 1) < 1 / x" using m(2) r1 by linarith
  have a: "2 powi (- int L) \<le> x"
  proof -
    have "1 \<le> x * 2 ^ L" using up assms by (simp add: field_simps)
    then show ?thesis by (simp add: power_int_minus field_simps)
  qed
  have e: "- int L + 1 = - int (L - 1)" using L by simp
  have b': "x < 2 powi (- int L + 1)"
  proof -
    have "x * 2 ^ (L - 1) < 1" using lo assms by (simp add: field_simps)
    then show ?thesis unfolding e by (simp add: power_int_minus field_simps)
  qed
  show ?thesis unfolding i using a b' by simp
qed


lemma ilog2_less:
  assumes "0 < x" "x < 2 powi k"
  shows "ilog2 x < k"
proof (rule ccontr)
  assume "\<not> ilog2 x < k"
  then have "(2::real) powi k \<le> 2 powi (ilog2 x)" by (simp add: power_int_increasing)
  with ilog2_bounds[OF assms(1)] assms(2) show False by linarith
qed

lemma ilog2_ge:
  assumes "0 < x" "2 powi k \<le> x"
  shows "k \<le> ilog2 x"
proof (rule ccontr)
  assume "\<not> k \<le> ilog2 x"
  then have "(2::real) powi (ilog2 x + 1) \<le> 2 powi k" by (simp add: power_int_increasing)
  with ilog2_bounds[OF assms(1)] assms(2) show False by linarith
qed

lemma round_double_rel_error:
  assumes "0 < x" "- 1022 \<le> ilog2 x"
  shows "\<bar>round_double x - x\<bar> \<le> x / 2 ^ 53"
proof -
  define e where "e = ilog2 x - 52"
  define u :: real where "u = 2 powi e"
  have u0: "0 < u" by (simp add: u_def)
  have mx: "max (ilog2 x - 52) (- 1074) = e" using assms(2) by (simp add: e_def)
  have rd: "round_double x = py_round (x / u) * u"
    using assms(1) by (simp add: round_double_def Let_def mx u_def)
  have "py_round (x / u) * u - x = (py_round (x / u) - x / u) * u"
    using u0 by (simp add: field_simps)
  then have "\<bar>py_round (x / u) * u - x\<bar> = \<bar>py_round (x / u) - x / u\<bar> * u"
    using u0 by (simp add: abs_mult)
  also have "\<dots> \<le> 1 / 2 * u"
    using py_round_error[of "x / u"] u0 by (intro mult_right_mono) simp_all
  finally have 1: "\<bar>round_double x - x\<bar> \<le> u / 2" unfolding rd by simp
  have "u = 2 powi (ilog2 x) / 2 ^ 52"
    by (simp add: u_def e_def power_int_diff)
  also have "\<dots> \<le> x / 2 ^ 52"
    using ilog2_bounds[OF assms(1)] by (simp add: divide_right_mono)
  finally have "u / 2 \<le> x / 2 ^ 53" by simp
  with 1 show ?thesis by linarith
qed

lemma round_double_int:
  assumes "1 \<le> n" "n < 2 ^ 53"
  shows "round_double (of_int n) = of_int n"
proof -
  define k where "k = ilog2 (of_int n)"
  have pos: "0 < (of_int n :: real)" using assms(1) by simp
  have "(of_int n :: real) < of_int (2 ^ 53)" using assms(2) by (simp only: of_int_less_iff)
  then have "(of_int n :: real) < 2 powi 53" by simp
  from ilog2_less[OF pos this] have k53: "k < 53" by (simp add: k_def)
  have "(2::real) powi 0 \<le> of_int n" using assms(1) by simp
  from ilog2_ge[OF pos this] have k0: "0 \<le> k" by (simp add: k_def)
  define j where "j = nat (52 - k)"
  have e: "k - 52 = - int j" using k53 by (simp add: j_def)
  have mx: "max (k - 52) (- 1074) = - int j" using k0 e by simp
  have "of_int n / 2 powi (- int j) = (of_int (n * 2 ^ j) :: real)"
    by (simp add: power_int_minus field_simps)
  then have "py_round (of_int n / 2 powi (- int j)) = of_int n * 2 ^ j"
    by (simp only: py_round_int) simp
  then have "py_round (of_int n / 2 powi (- int j)) * 2 powi (- int j) = of_int n"
    by (simp add: power_int_minus field_simps)
  then show ?thesis
    using pos by (simp add: round_double_def Let_def k_def[symmetric] mx)
qed

lemma round_double_quotient:
  assumes a: "0 \<le> a" "a < 2 ^ 53" and b: "0 < b" "b < 2 ^ 53"
  shows "\<lfloor>round_double (of_int a / of_int b)\<rfloor> = \<lfloor>of_int a / (of_int b :: real)\<rfloor>"
    and "\<lceil>round_double (of_int a / of_int b)\<rceil> = \<lceil>of_int a / (of_int b :: real)\<rceil>"
    and "\<bar>round_double (of_int a / of_int b)\<bar> < 2 ^ 1024"
proof -
  define q :: real where "q = of_int a / of_int b"
  have br: "0 < (of_int b :: real)" using b(1) by simp
  have big: "(2::real) ^ 53 < 2 ^ 1024" by simp
  have ar: "(of_int a :: real) < 2 ^ 53"
  proof -
    have "(of_int a :: real) < of_int (2 ^ 53)" using a(2) by (simp only: of_int_less_iff)
    then show ?thesis by simp
  qed
  have "\<lfloor>round_double q\<rfloor> = \<lfloor>q\<rfloor> \<and> \<lceil>round_double q\<rceil> = \<lceil>q\<rceil> \<and> \<bar>round_double q\<bar> < 2 ^ 1024"
  proof (cases "b dvd a")
    case True
    then obtain n where n: "a = b * n" by (auto simp: dvd_def)
    have qn: "q = of_int n" using b(1) by (simp add: q_def n)
    have n0: "0 \<le> n" using a(1) b(1) n by (simp add: zero_le_mult_iff)
    have "n \<le> b * n" using b(1) n0 by (simp add: mult_le_cancel_right1)
    then have n53: "n < 2 ^ 53" using a(2) n by simp
    have rn: "round_double (of_int n) = of_int n"
    proof (cases "n = 0")
      case True
      then show ?thesis by (simp add: round_double_def)
    next
      case False
      then have "1 \<le> n" using n0 by simp
      then show ?thesis using n53 by (rule round_double_int)
    qed
    have "\<bar>(of_int n :: real)\<bar> < 2 ^ 53"
    proof -
      have "(of_int n :: real) < of_int (2 ^ 53)" using n53 by (simp only: of_int_less_iff)
      then show ?thesis using n0 by simp
    qed
    then have "\<bar>(of_int n :: real)\<bar> < 2 ^ 1024" using big by linarith
    then show ?thesis unfolding qn rn by simp
  next
    case False
    define n where "n = a div b"
    define r where "r = a mod b"
    have "0 \<le> r" "r < b" "r \<noteq> 0"
      using False b(1) by (simp_all add: r_def mod_eq_0_iff_dvd)
    then have r: "1 \<le> r" "r \<le> b - 1" by simp_all
    have an: "a = n * b + r" by (simp add: n_def r_def)
    have qd: "q = of_int n + of_int r / of_int b"
      using br by (simp add: q_def an field_simps)
    have rb1: "1 / of_int b \<le> of_int r / (of_int b :: real)"
      using r(1) br by (simp add: divide_right_mono)
    have rb2: "of_int r / (of_int b :: real) \<le> 1 - 1 / of_int b"
    proof -
      have "(of_int r :: real) \<le> of_int (b - 1)" using r(2) by (simp only: of_int_le_iff)
      then have "of_int r / (of_int b :: real) \<le> of_int (b - 1) / of_int b"
        using br by (simp add: divide_right_mono)
      also have "\<dots> = 1 - 1 / of_int b" using br by (simp add: field_simps)
      finally show ?thesis .
    qed
    have n0: "0 \<le> n" using a(1) b(1) by (simp add: n_def pos_imp_zdiv_nonneg_iff)
    have q0: "0 < q" using a(1) b(1) False br
      by (cases "a = 0") (simp_all add: q_def)
    have qlow: "1 / of_int b \<le> q" unfolding qd using rb1 n0 by simp
    have binv: "1 / 2 ^ 53 < 1 / (of_int b :: real)"
    proof -
      have "(of_int b :: real) < of_int (2 ^ 53)" using b(2) by (simp only: of_int_less_iff)
      then have "(of_int b :: real) < 2 ^ 53" by simp
      then show ?thesis using br by (simp add: field_simps)
    qed
    have "(2::real) powi (- 53) \<le> q" using qlow binv by (simp add: power_int_minus field_simps)
    from ilog2_ge[OF q0 this] have il: "- 1022 \<le> ilog2 q" by simp
    from round_double_rel_error[OF q0 il] have err: "\<bar>round_double q - q\<bar> \<le> q / 2 ^ 53" .
    have "q / 2 ^ 53 = (of_int a / 2 ^ 53) / of_int b" by (simp add: q_def)
    also have "\<dots> < 1 / of_int b"
    proof -
      have "of_int a / 2 ^ 53 < (1::real)" using ar by simp
      then show ?thesis using br by (rule divide_strict_right_mono)
    qed
    finally have small: "q / 2 ^ 53 < 1 / of_int b" .
    have lo: "of_int n < round_double q" using err small qd rb1 by linarith
    have hi: "round_double q < of_int n + 1" using err small qd rb2 by linarith
    have inv0: "0 < 1 / (of_int b :: real)" using br by simp
    have qlo: "of_int n + 1 / of_int b \<le> q" using qd rb1 by linarith
    have qhi: "q \<le> of_int n + 1 - 1 / of_int b" using qd rb2 by linarith
    have fq: "\<lfloor>q\<rfloor> = n"
    proof (rule floor_unique)
      show "of_int n \<le> q" using qlo inv0 by linarith
      show "q < of_int n + 1" using qhi inv0 by linarith
    qed
    have cq: "\<lceil>q\<rceil> = n + 1"
    proof (rule ceiling_unique)
      have "of_int n < q" using qlo inv0 by linarith
      then show "of_int (n + 1) - 1 < q" by simp
      have "q \<le> of_int n + 1" using qhi inv0 by linarith
      then show "q \<le> of_int (n + 1)" by simp
    qed
    have f: "\<lfloor>round_double q\<rfloor> = n" using lo hi by (intro floor_unique) simp_all
    have c: "\<lceil>round_double q\<rceil> = n + 1" using lo hi by (intro ceiling_unique) simp_all
    have "q < 2 ^ 53" 
    proof -
      have "q \<le> of_int a" using a(1) b(1) unfolding q_def
        by (simp add: divide_le_eq mult_le_cancel_left1)
      then show ?thesis using ar by linarith
    qed
    moreover have "0 \<le> (of_int n :: real)" using n0 by simp
    moreover have "of_int n \<le> q" using qlo inv0 by linarith
    ultimately have "\<bar>round_double q\<bar> < 2 ^ 53 + 1" using lo hi by linarith
    also have "\<dots> < (2::real) ^ 1024" by simp
    finally show ?thesis using f c fq cq by simp
  qed
  then show "\<lfloor>round_double (of_int a / of_int b)\<rfloor> = \<lfloor>of_int a / (of_int b :: real)\<rfloor>"
    and "\<lceil>round_double (of_int a / of_int b)\<rceil> = \<lceil>of_int a / (of_int b :: real)\<rceil>"
    and "\<bar>round_double (of_int a / of_int b)\<bar> < 2 ^ 1024"
    by (simp_all add: q_def)
qed

section \<open>Properties of directory listings\<close>

lemma load_files_pages:
  "load_files valid_ts es l = Inr l' \<Longrightarrow> page l' = page l \<and> pages l' = pages l"
proof (induction es arbitrary: l)
  case Nil
  then show ?case by simp
next
  case (Cons entry rest)
  then show ?case
    by (auto split: sum.splits if_splits)
qed

lemma load_page_fields:
  assumes "load valid_ts j = Inr l"
      and "py_getitem j ''length'' = Inr t" "py_getitem j ''index'' = Inr i"
      and "py_getitem j ''list'' = Inr p"
  shows "\<exists>qs q. py_truediv t p = Inr qs \<and> py_truediv i p = Inr q
           \<and> pages l = \<lceil>qs\<rceil> \<and> page l = \<lfloor>q\<rfloor>"
  using assms
  by (auto simp: load_def Let_def split: sum.splits if_splits pyval.splits
      dest!: load_files_pages)

lemma py_truediv_ints:
  assumes "0 \<le> a" "a < 2 ^ 53" "0 < b" "b < 2 ^ 53"
  shows "py_truediv (PInt a) (PInt b) = Inr (round_double (of_int a / of_int b))"
  using round_double_quotient(3)[OF assms] assms(3)
  by (simp add: py_truediv_def num_of_def is_float_def float_of_def Let_def)

text \<open>
  C6, as the code has it. Whenever \<^verbatim>\<open>load\<close> builds a listing from a response whose
  \<^verbatim>\<open>length\<close>, \<^verbatim>\<open>index\<close> and \<^verbatim>\<open>list\<close> are the integers \<open>t\<close>, \<open>i\<close> and \<open>p\<close>, with
  \<open>0 \<le> t, i < 2 ^ 53\<close> and \<open>0 < p < 2 ^ 53\<close>, its page is \<open>floor (i / p)\<close> and its page
  count is \<open>ceiling (t / p)\<close>, of the exact quotients: the rounding of \<^verbatim>\<open>/\<close> to a float
  does not show. The page is the one whose range of indices holds \<open>i\<close>, and the page
  count is the least number of pages of size \<open>p\<close> that hold \<open>t\<close> objects. For 20
  objects, page size 16 and index 16 the page is 1 of 2 (the witness).
\<close>

theorem load_pagination:
  assumes "load valid_ts resp_json = Inr l"
      and "py_getitem resp_json ''length'' = Inr (PInt t)"
      and "py_getitem resp_json ''index'' = Inr (PInt i)"
      and "py_getitem resp_json ''list'' = Inr (PInt p)"
      and "0 \<le> t" "t < 2 ^ 53" and "0 \<le> i" "i < 2 ^ 53" and "0 < p" "p < 2 ^ 53"
  shows "page l = \<lfloor>of_int i / (of_int p :: real)\<rfloor>
         \<and> pages l = \<lceil>of_int t / (of_int p :: real)\<rceil>
         \<and> page l * p \<le> i \<and> i < (page l + 1) * p
         \<and> (pages l - 1) * p < t \<and> t \<le> pages l * p"
proof -
  from load_page_fields[OF assms(1-4)]
    py_truediv_ints[OF assms(5,6,9,10)] py_truediv_ints[OF assms(7,8,9,10)]
  have "pages l = \<lceil>round_double (of_int t / of_int p)\<rceil>"
    and "page l = \<lfloor>round_double (of_int i / of_int p)\<rfloor>"
    by auto
  then have pgs: "pages l = \<lceil>of_int t / (of_int p :: real)\<rceil>"
    and pg: "page l = \<lfloor>of_int i / (of_int p :: real)\<rfloor>"
    using round_double_quotient(2)[OF assms(5,6,9,10)]
      round_double_quotient(1)[OF assms(7,8,9,10)] by simp_all
  have pr: "0 < (of_int p :: real)" using assms(9) by simp
  have "of_int (page l) * of_int p \<le> (of_int i :: real)"
    unfolding pg using pr by (simp add: floor_divide_lower)
  then have 1: "page l * p \<le> i"
    by (metis of_int_le_iff of_int_mult)
  have "(of_int i :: real) < (of_int (page l) + 1) * of_int p"
    unfolding pg using pr by (simp add: floor_divide_upper)
  then have "(of_int i :: real) < of_int ((page l + 1) * p)" by simp
  then have 2: "i < (page l + 1) * p" by (simp only: of_int_less_iff)
  have "(of_int (pages l) - 1) * of_int p < (of_int t :: real)"
    unfolding pgs using pr by (simp add: ceiling_divide_lower)
  then have "(of_int ((pages l - 1) * p) :: real) < of_int t" by simp
  then have 3: "(pages l - 1) * p < t" by (simp only: of_int_less_iff)
  have "(of_int t :: real) \<le> of_int (pages l) * of_int p"
    unfolding pgs using pr by (simp add: ceiling_divide_upper)
  then have "(of_int t :: real) \<le> of_int (pages l * p)" by simp
  then have 4: "t \<le> pages l * p" by (simp only: of_int_le_iff)
  from pg pgs 1 2 3 4 show ?thesis by blast
qed

theorem load_pagination_witness:
  "\<exists>l. load (\<lambda>t. True) example_dir_json = Inr l \<and> page l = 1 \<and> pages l = 2"
proof -
  have q: "py_truediv (PInt 20) (PInt 16) = Inr (round_double (of_int 20 / of_int 16))"
    "py_truediv (PInt 16) (PInt 16) = Inr (round_double (of_int 16 / of_int 16))"
    by (rule py_truediv_ints; simp)+
  have "\<exists>l. load (\<lambda>t. True) example_dir_json = Inr l"
    by (simp add: example_dir_json_def load_def py_in_def py_getitem_def dict_has_def
        q FileObject_def is_number_def py_truthy_def)
  then obtain l where l: "load (\<lambda>t. True) example_dir_json = Inr l" ..
  have g: "py_getitem example_dir_json ''length'' = Inr (PInt 20)"
          "py_getitem example_dir_json ''index'' = Inr (PInt 16)"
          "py_getitem example_dir_json ''list'' = Inr (PInt 16)"
    by (simp_all add: example_dir_json_def py_getitem_def)
  from load_pagination[OF l g]
  have "page l = 1 \<and> pages l = 2" by simp
  with l show ?thesis by blast
qed

lemma round_double_above_2_53: "round_double 9007199254740993 = 9007199254740992"
proof -
  have "53 \<le> ilog2 9007199254740993" by (rule ilog2_ge) simp_all
  moreover have "ilog2 9007199254740993 < 54" by (rule ilog2_less) simp_all
  ultimately have i: "ilog2 9007199254740993 = 53" by simp
  have f: "\<lfloor>9007199254740993 / (2::real)\<rfloor> = 4503599627370496" by simp
  have r: "py_round (9007199254740993 / 2) = 4503599627370496"
    by (simp add: py_round_def Let_def f)
  show ?thesis by (simp add: round_double_def i r)
qed

text \<open>
  C6, as the claim states it (for every listing), fails where the rounding of \<^verbatim>\<open>/\<close>
  shows: \<open>2 ^ 53 + 1\<close> objects in pages of 1 are \<open>2 ^ 53 + 1\<close> pages, a number that no
  float holds; the quotient is rounded to \<open>2 ^ 53\<close>, and so is the page count.
\<close>

theorem pagination_claim_counterexample:
  "\<exists>l. load (\<lambda>t. True) big_dir_json = Inr l
      \<and> numObjectsInDir l = PInt 9007199254740993 \<and> pageSize l = PInt 1
      \<and> pages l = 9007199254740992
      \<and> pages l \<noteq> \<lceil>9007199254740993 / (1::real)\<rceil>"
proof -
  have t: "py_truediv (PInt 9007199254740993) (PInt 1) = Inr 9007199254740992"
    by (simp add: py_truediv_def num_of_def is_float_def float_of_def Let_def
        round_double_above_2_53)
  have i: "py_truediv (PInt 0) (PInt 1) = Inr 0"
    by (simp add: py_truediv_def num_of_def is_float_def float_of_def Let_def
        round_double_def)
  show ?thesis
    by (simp add: big_dir_json_def load_def py_in_def py_getitem_def dict_has_def t i)
qed

section \<open>Properties of the configuration update\<close>

lemmas eval_defs = config_set_def config_get_def getRequest_def postRequest_def
  validateResponse_def readResponse_def json_def py_in_def py_getitem_def dict_has_def
  dict_get_def py_tuple_def py_len_def py_eq_def num_of_def is_number_def
  build_data_def numeric_field_def mask_field_def attn_field_def antenna_field_def
  check_update_def formCompleteURL_def Let_def str_flag_def str_int_def digit_def
  py_or_def py_truthy_def no_args_def

lemmas example_defs = dev_keeps_config_def example_client_def example_config_json_def
  zero_mask_def last_mask_def

lemma check_flags_result:
  "check_flags xs n =
     (if list_all (\<lambda>x. py_eq x (PInt 0) \<or> py_eq x (PInt 1)) xs
      then Inr (n + length xs) else Inl ValueError)"
  by (induction xs arbitrary: n) auto

text \<open>
  What \<^verbatim>\<open>set\<close> accepts as an antenna mask: exactly the tuples of eight values that are
  each equal to 0 or 1. Lists, tuples of another length and other values are rejected;
  the number of flags that are set plays no part.
\<close>

lemma antenna_field_accepts:
  "antenna_field v = Inr s \<longleftrightarrow>
     (\<exists>xs. v = PTuple xs \<and> length xs = 8
        \<and> list_all (\<lambda>x. py_eq x (PInt 0) \<or> py_eq x (PInt 1)) xs
        \<and> s = PStr (join_comma (map str_flag xs)))"
  by (cases v) (auto simp: antenna_field_def check_flags_result)

text \<open>
  C2. The claim: a mask with no bit set, given as \<^verbatim>\<open>txAnt\<close> or \<^verbatim>\<open>rxAnt\<close>, makes \<^verbatim>\<open>set\<close>
  fail before the update is sent. The code counts the elements of the mask, not the
  bits that are set, so its test \<^verbatim>\<open>count > 0\<close> always holds and the
  \<^verbatim>\<open>"Must have at least one rxAntenna enabled."\<close> branch is never taken: the all-zero
  mask is posted as \<^verbatim>\<open>"0,0,0,0,0,0,0,0"\<close> and the call succeeds.
\<close>

theorem zero_mask_is_posted:
  "fst (config_set dev_keeps_config (no_args\<lparr>txAnt := zero_mask\<rparr>) example_client)
     = Inr RetSelf
   \<and> map req_method
        (sent (snd (config_set dev_keeps_config (no_args\<lparr>txAnt := zero_mask\<rparr>)
           example_client))) = [GET, POST]
   \<and> req_data
        (last (sent (snd (config_set dev_keeps_config (no_args\<lparr>txAnt := zero_mask\<rparr>)
           example_client))))
       = [(''txAntenna'', PStr ''0,0,0,0,0,0,0,0''), (''apikey'', PStr ''18052021'')]
   \<and> fst (config_set dev_keeps_config (no_args\<lparr>rxAnt := zero_mask\<rparr>) example_client)
     = Inr RetSelf
   \<and> req_data
        (last (sent (snd (config_set dev_keeps_config (no_args\<lparr>rxAnt := zero_mask\<rparr>)
           example_client))))
       = [(''rxAntenna'', PStr ''0,0,0,0,0,0,0,0''), (''apikey'', PStr ''18052021'')]"
  by (simp add: eval_defs example_defs str_nat.simps)

text \<open>
  C4. The claim: after a 200, every field the caller asked to change is compared with
  the configuration read back, and a difference raises \<^verbatim>\<open>DidNotUpdateException\<close>. The
  code compares \<^verbatim>\<open>nAtts\<close>, \<^verbatim>\<open>nBursts\<close> and the attenuator and gain values only. Against
  a radar that answers 200 and keeps its configuration, a new \<^verbatim>\<open>nAverages\<close>, a new
  \<^verbatim>\<open>userData\<close> and a new antenna mask each return normally although the value read back
  differs from the one requested; a new \<^verbatim>\<open>nBursts\<close> raises, as the claim says.
\<close>

theorem unchecked_fields_pass:
  "fst (config_set dev_keeps_config (no_args\<lparr>nAverages_arg := PInt 10\<rparr>) example_client)
     = Inr RetSelf
   \<and> nAverages (snd (config_set dev_keeps_config (no_args\<lparr>nAverages_arg := PInt 10\<rparr>)
        example_client)) = PInt 0
   \<and> fst (config_set dev_keeps_config (no_args\<lparr>userData_arg := PStr ''line 7''\<rparr>)
        example_client) = Inr RetSelf
   \<and> userData (snd (config_set dev_keeps_config (no_args\<lparr>userData_arg := PStr ''line 7''\<rparr>)
        example_client)) = PStr ''''
   \<and> fst (config_set dev_keeps_config (no_args\<lparr>txAnt := last_mask\<rparr>) example_client)
     = Inr RetSelf
   \<and> txAntenna (snd (config_set dev_keeps_config (no_args\<lparr>txAnt := last_mask\<rparr>)
        example_client))
     = PTuple [PInt 1, PInt 1, PInt 0, PInt 0, PInt 0, PInt 0, PInt 0, PInt 0]
   \<and> fst (config_set dev_keeps_config (no_args\<lparr>nBursts := PInt 10\<rparr>) example_client)
     = Inl DidNotUpdateException"
  by (simp add: eval_defs example_defs str_nat.simps)

section \<open>Properties of the results timeout\<close>

lemma getRequest_count:
  "getRequest dev url data c = (r, c') \<Longrightarrow> requestCount c' = requestCount c + 1"
  by (auto simp: getRequest_def Let_def split: sum.splits)











section \<open>Properties of the burst start\<close>

lemma not_started_dict:
  "json_body resp = Some (PDict d) \<Longrightarrow> not_started resp = RadarBusyException"
  by (simp add: not_started_def json_def py_in_def)

text \<open>
  C3, as the code has it. After the configuration refresh has succeeded, and for a
  response to the POST that arrived and passed \<^verbatim>\<open>validateResponse\<close>: status 303 is a
  successful start, for \<^verbatim>\<open>burst\<close> and for \<^verbatim>\<open>trialBurst\<close>; any other status with a JSON
  object as body raises \<^verbatim>\<open>RadarBusyException\<close>, whether or not the object has an
  \<^verbatim>\<open>errorMessage\<close>; and a \<^verbatim>\<open>requests\<close> connection error during the POST of
  \<^verbatim>\<open>trialBurst\<close> is raised as \<^verbatim>\<open>RadarBusyException\<close>.
\<close>

theorem burst_start_contract:
  assumes cfg: "config_get dev c = (Inr (), c1)"
      and fname: "fname = PNone \<or> (\<exists>f. fname = PStr f)"
      and post_b: "postRequest dev ''radar/burst'' (Some (burst_data fname user_data))
                     False c1 = (rb, cb)"
      and post_t: "postRequest dev ''radar/trial-burst'' None False c1 = (rt, ct)"
  shows "(\<forall>resp. rb = Inr resp \<and> status_code resp = 303
            \<longrightarrow> burst dev fname user_data c = (Inr (), cb))
       \<and> (\<forall>resp d. rb = Inr resp \<and> status_code resp \<noteq> 303
              \<and> json_body resp = Some (PDict d)
            \<longrightarrow> burst dev fname user_data c = (Inl RadarBusyException, cb))
       \<and> (\<forall>resp. rt = Inr resp \<and> status_code resp = 303
            \<longrightarrow> trialBurst dev c = (Inr (), ct))
       \<and> (\<forall>resp d. rt = Inr resp \<and> status_code resp \<noteq> 303
              \<and> json_body resp = Some (PDict d)
            \<longrightarrow> trialBurst dev c = (Inl RadarBusyException, ct))
       \<and> (rt = Inl RequestsConnectionError
            \<longrightarrow> trialBurst dev c = (Inl RadarBusyException, ct))"
  using assms
  by (auto simp: burst_def trialBurst_def VALID_BURST_STATUS_CODE_def not_started_dict)

lemmas burst_eval_defs = burst_def trialBurst_def burst_data_def not_started_def
  VALID_BURST_STATUS_CODE_def config_resp_def dev_rejects_def dev_unreachable_def
  dev_starts_def

theorem burst_start_contract_witness:
  "fst (burst dev_starts (PStr ''1_SARRTK_20210518_100000.dat'') PNone example_client)
     = Inr ()
   \<and> fst (trialBurst dev_starts example_client) = Inr ()
   \<and> fst (burst (dev_rejects (PDict [])) (PStr ''1_SARRTK_20210518_100000.dat'') PNone
           example_client) = Inl RadarBusyException
   \<and> fst (trialBurst (dev_rejects (PDict [])) example_client) = Inl RadarBusyException
   \<and> fst (trialBurst dev_unreachable example_client) = Inl RadarBusyException"
proof -
  let ?fn = "PStr ''1_SARRTK_20210518_100000.dat''"
  have fname: "?fn = PNone \<or> (\<exists>f. ?fn = PStr f)" by simp
  have started: "fst (burst dev ?fn PNone example_client) = Inr ()
                 \<and> fst (trialBurst dev example_client) = Inr ()"
    if "dev = dev_starts" for dev
  proof -
    define c1 where "c1 = snd (config_get dev example_client)"
    have cfg: "config_get dev example_client = (Inr (), c1)"
      by (simp add: c1_def that eval_defs example_defs burst_eval_defs)
    obtain rb cb where pb: "postRequest dev ''radar/burst'' (Some (burst_data ?fn PNone))
        False c1 = (rb, cb)" by fastforce
    obtain rt ct where pt: "postRequest dev ''radar/trial-burst'' None False c1 = (rt, ct)"
      by fastforce
    have rb: "rb = Inr \<lparr>status_code = 303, content_type = None, json_body = None\<rparr>"
      using pb by (auto simp: that postRequest_def Let_def dev_starts_def
          validateResponse_def)
    have rt: "rt = Inr \<lparr>status_code = 303, content_type = None, json_body = None\<rparr>"
      using pt by (auto simp: that postRequest_def Let_def dev_starts_def
          validateResponse_def)
    from burst_start_contract[OF cfg fname pb pt] rb rt show ?thesis
      by simp
  qed
  have rejected: "fst (burst dev ?fn PNone example_client) = Inl RadarBusyException
                  \<and> fst (trialBurst dev example_client) = Inl RadarBusyException"
    if "dev = dev_rejects (PDict [])" for dev
  proof -
    define c1 where "c1 = snd (config_get dev example_client)"
    have cfg: "config_get dev example_client = (Inr (), c1)"
      by (simp add: c1_def that eval_defs example_defs burst_eval_defs)
    obtain rb cb where pb: "postRequest dev ''radar/burst'' (Some (burst_data ?fn PNone))
        False c1 = (rb, cb)" by fastforce
    obtain rt ct where pt: "postRequest dev ''radar/trial-burst'' None False c1 = (rt, ct)"
      by fastforce
    have rb: "rb = Inr \<lparr>status_code = 403, content_type = Some ''application/json'',
                          json_body = Some (PDict [])\<rparr>"
      using pb by (auto simp: that postRequest_def Let_def dev_rejects_def
          validateResponse_def json_def py_in_def dict_has_def)
    have rt: "rt = Inr \<lparr>status_code = 403, content_type = Some ''application/json'',
                          json_body = Some (PDict [])\<rparr>"
      using pt by (auto simp: that postRequest_def Let_def dev_rejects_def
          validateResponse_def json_def py_in_def dict_has_def)
    from burst_start_contract[OF cfg fname pb pt] rb rt show ?thesis
      by simp
  qed
  have unreachable: "fst (trialBurst dev example_client) = Inl RadarBusyException"
    if "dev = dev_unreachable" for dev
  proof -
    define c1 where "c1 = snd (config_get dev example_client)"
    have cfg: "config_get dev example_client = (Inr (), c1)"
      by (simp add: c1_def that eval_defs example_defs burst_eval_defs)
    obtain rb cb where pb: "postRequest dev ''radar/burst'' (Some (burst_data ?fn PNone))
        False c1 = (rb, cb)" by fastforce
    obtain rt ct where pt: "postRequest dev ''radar/trial-burst'' None False c1 = (rt, ct)"
      by fastforce
    have rt: "rt = Inl RequestsConnectionError"
      using pt by (auto simp: that postRequest_def Let_def dev_unreachable_def)
    from burst_start_contract[OF cfg fname pb pt] rt show ?thesis
      by simp
  qed
  from started[OF refl] rejected[OF refl] unreachable[OF refl]
  show ?thesis by simp
qed

text \<open>
  C3, as the claim states it, fails on the code twice: a refusal without an
  \<^verbatim>\<open>errorMessage\<close> raises the same \<^verbatim>\<open>RadarBusyException\<close> as one with a message (the
  module has no other exception for a rejected burst), and a connection error during
  the POST of \<^verbatim>\<open>burst\<close> leaves \<^verbatim>\<open>burst\<close> as the connection error it is.
\<close>

theorem burst_claim_counterexample:
  "fst (burst (dev_rejects (PDict [])) (PStr ''1_SARRTK_20210518_100000.dat'') PNone
         example_client)
     = Inl RadarBusyException
   \<and> fst (burst (dev_rejects (PDict [(''errorCode'', PInt 403),
                                      (''errorMessage'', PStr ''busy'')]))
           (PStr ''1_SARRTK_20210518_100000.dat'') PNone example_client)
     = Inl RadarBusyException
   \<and> fst (burst dev_unreachable (PStr ''1_SARRTK_20210518_100000.dat'') PNone
           example_client)
     = Inl RequestsConnectionError"
  by (simp add: eval_defs burst_eval_defs example_defs)

section \<open>Properties of the position controller\<close>

lemma frame_refl: "frame c c"
  by (simp add: frame_def)

lemma frame_trans:
  assumes "frame c c'" "frame c' c''"
  shows "frame c c''"
proof -
  have "c''\<lparr>apres := apres c, log := log c\<rparr>
          = (c''\<lparr>apres := apres c', log := log c'\<rparr>)\<lparr>apres := apres c, log := log c\<rparr>"
    by simp
  also have "\<dots> = c'\<lparr>apres := apres c, log := log c\<rparr>"
    using assms(2) by (simp only: frame_def)
  also have "\<dots> = c" using assms(1) by (simp only: frame_def)
  finally show ?thesis by (simp only: frame_def)
qed

lemma frame_say: "frame c (say evs c)"
  by (simp add: frame_def say_def)

lemma frame_apres: "frame c (c\<lparr>apres := a\<rparr>)"
  by (simp add: frame_def)

lemma frame_say_apres: "frame c (say evs (c\<lparr>apres := a\<rparr>))"
  by (simp add: frame_def say_def)

lemma try_burst_frame:
  assumes "try_burst en fn lb k att c = Some y"
  shows "frame c (snd y)"
proof (rule try_burst.raw_induct[where P = "\<lambda>en fn lb k att c y. frame c (snd y)",
      OF _ assms], goal_cases)
  case (1 f en fn lb k att c y)
  note IH = 1(1) and body = 1(2)
  show ?case
  proof (cases "perf_counter en (nPnt c) k - lb < TRY_BURST_TIMEOUT")
    case False
    with body show ?thesis by (auto simp: frame_refl)
  next
    case True
    define c1 where
      "c1 = say [LogInfo (''burst started (attempt: '' @ str_nat att @ '')'')] c"
    have f1: "frame c c1" unfolding c1_def by (rule frame_say)
    obtain res a where b: "burst (radar en) (PStr fn) PNone (apres c1) = (res, a)"
      by fastforce
    show ?thesis
    proof (cases res)
      case (Inr u)
      with body True b have "snd y = say [LogInfo ''burst finished''] (c1\<lparr>apres := a\<rparr>)"
        by (auto simp: c1_def Let_def)
      with f1 show ?thesis by (simp add: frame_trans[OF f1 frame_say_apres])
    next
      case (Inl e)
      consider (busy) "e = RadarBusyException"
        | (conn) "e \<noteq> RadarBusyException" "e = ConnectionError"
        | (other) "e \<noteq> RadarBusyException" "e \<noteq> ConnectionError" by blast
      then show ?thesis
      proof cases
        case busy
        with body True b Inl have
          "f en fn lb (k + 1) (att + 1)
             (say [LogWarning ''radar busy, trying again'', Say ''radar busy trying again'']
                (c1\<lparr>apres := a\<rparr>)) = Some y"
          by (simp add: c1_def Let_def)
        from IH[OF this] show ?thesis
          by (rule frame_trans[OF frame_trans[OF f1 frame_say_apres]])
      next
        case conn
        with body True b Inl have
          "f en fn lb (k + 1) (att + 1)
             (say [LogWarning ''connection to radar rejected, trying again'', Say ''hold on'']
                (c1\<lparr>apres := a\<rparr>)) = Some y"
          by (simp add: c1_def Let_def)
        from IH[OF this] show ?thesis
          by (rule frame_trans[OF frame_trans[OF f1 frame_say_apres]])
      next
        case other
        with body True b Inl have "snd y = c1\<lparr>apres := a\<rparr>"
          by (auto simp: c1_def Let_def)
        with f1 show ?thesis by (simp add: frame_trans[OF f1 frame_apres])
      qed
    qed
  qed
qed

lemma download_block_frame: "frame c (download_block en fn c)"
proof (cases "DownloadFile c \<and> \<not> path_exists en fn")
  case False
  then show ?thesis by (auto simp: download_block_def frame_refl)
next
  case True
  define c1 where "c1 = say [LogInfo ''download started''] c"
  have f1: "frame c c1" unfolding c1_def by (rule frame_say)
  obtain res a where d: "download en (''Survey/'' @ fn) (apres c1) = (res, a)"
    by fastforce
  have "frame c1 (download_block en fn c)"
    using True d by (cases res) (simp_all add: download_block_def c1_def[symmetric] frame_say_apres)
  with f1 show ?thesis by (rule frame_trans)
qed

lemma after_loop_frame: "frame c (after_loop en fn lb k c)"
proof -
  define c2 where "c2 = (if perf_counter en (nPnt c) k - lb \<ge> TRY_BURST_TIMEOUT
                then say [LogCritical ''burst failed after trying for 30 seconds'',
                          LogCritical ''not getting results'',
                          Say ''fatal error'', Say ''restart the system''] c
                else c)"
  define c3 where "c3 = say (Say ''waiting'' # replicate 28 (Sleep 1)) c2"
  define c4 where "c4 = download_block en fn c3"
  have r: "after_loop en fn lb k c = say (point_log fn c4) c4"
    by (simp add: after_loop_def Let_def c2_def c3_def c4_def)
  have "frame c c2" by (simp add: c2_def frame_refl frame_say)
  moreover have "frame c2 c3" unfolding c3_def by (rule frame_say)
  moreover have "frame c3 c4" unfolding c4_def by (rule download_block_frame)
  moreover have "frame c4 (say (point_log fn c4) c4)" by (rule frame_say)
  ultimately show ?thesis unfolding r by (blast intro: frame_trans)
qed

lemma robustBurst_frame:
  assumes "robustBurst en c = Some (r, c')"
  shows "frame (c\<lparr>nPnt := nPnt c + 1\<rparr>) c'"
proof -
  define c0 where "c0 = (say [Say ''Shooting''] c)\<lparr>nPnt := nPnt c + 1\<rparr>"
  define fn where "fn = str_int (nPnt c0) @ ''_SARRTK_'' @ stamp en (nPnt c0) @ ''.dat''"
  have f0: "frame (c\<lparr>nPnt := nPnt c + 1\<rparr>) c0"
    by (simp add: c0_def frame_def say_def)
  from assms obtain y where y: "try_burst en fn (perf_counter en (nPnt c0) 0) 1 1 c0 = Some y"
    by (auto simp: robustBurst_def Let_def c0_def fn_def split: option.splits)
  from try_burst_frame[OF y] have fr: "frame c0 (snd y)" .
  show ?thesis
  proof (cases "fst y")
    case (Inl e)
    with assms y have "c' = snd y"
      by (cases y) (auto simp: robustBurst_def Let_def c0_def fn_def)
    with fr f0 show ?thesis by (blast intro: frame_trans)
  next
    case (Inr lk)
    with assms y have "c' = after_loop en fn (fst lk) (snd lk) (snd y)"
      by (cases y; cases lk) (auto simp: robustBurst_def Let_def c0_def fn_def)
    with fr f0 after_loop_frame[of "snd y" en fn "fst lk" "snd lk"] show ?thesis
      by (blast intro: frame_trans)
  qed
qed

lemma frame_fields:
  assumes "frame c c'"
  shows "stat c' = stat c" "refLat c' = refLat c" "refLon c' = refLon c"
    "lat c' = lat c" "lon c' = lon c" "iquality c' = iquality c"
    "moveDist c' = moveDist c" "RTKsens c' = RTKsens c" "min_err c' = min_err c"
    "max_err c' = max_err c" "nPnt c' = nPnt c" "stepsize c' = stepsize c"
    "fix_time c' = fix_time c" "alt c' = alt c"
proof -
  from assms have e: "c = c'\<lparr>apres := apres c, log := log c\<rparr>"
    by (simp add: frame_def)
  show "stat c' = stat c" "refLat c' = refLat c" "refLon c' = refLon c"
    "lat c' = lat c" "lon c' = lon c" "iquality c' = iquality c"
    "moveDist c' = moveDist c" "RTKsens c' = RTKsens c" "min_err c' = min_err c"
    "max_err c' = max_err c" "nPnt c' = nPnt c" "stepsize c' = stepsize c"
    "fix_time c' = fix_time c" "alt c' = alt c"
    by (subst e, simp)+
qed

lemma observe_eq:
  "(stat (fst (evaluate c)), snd (evaluate c)) =
     (let s1 = (if stat c = MovingForward \<and> moveDist c > max_err c
                then MovingBackward else stat c);
          s2 = (if s1 = MovingBackward \<and> moveDist c < min_err c
                then MovingForward else s1)
      in if s2 \<noteq> WellPositioned \<and> min_err c < moveDist c \<and> moveDist c < max_err c
         then (WellPositioned, True) else (s2, False))"
  by (simp add: evaluate_def transitions_def in_band_def say_def Let_def)

lemma evaluate_frame: "frame (c\<lparr>stat := stat (fst (evaluate c))\<rparr>) (fst (evaluate c))"
  by (simp add: evaluate_def transitions_def in_band_def say_def Let_def frame_def)

lemma trigger_step:
  assumes q: "iquality c = 4 \<or> iquality c = 5"
      and returns: "\<forall>x. \<exists>r x'. robustBurst en x = Some (Inr r, x')"
  shows "\<exists>c'. triggerApRES en c = Some (Inr (), c')
           \<and> stat c' = (if snd (evaluate c) then MovingForward else stat (fst (evaluate c)))
           \<and> nPnt c' = nPnt c + (if snd (evaluate c) then 1 else 0)
           \<and> min_err c' = min_err c \<and> max_err c' = max_err c \<and> iquality c' = iquality c"
proof -
  obtain c3 fired where ev: "evaluate c = (c3, fired)" by fastforce
  from evaluate_frame[of c] ev have f3: "frame (c\<lparr>stat := stat c3\<rparr>) c3" by simp
  note c3 = frame_fields[OF f3]
  show ?thesis
  proof (cases fired)
    case False
    with q ev c3 show ?thesis by (simp add: triggerApRES_def)
  next
    case True
    from returns obtain r c4 where rb: "robustBurst en c3 = Some (Inr r, c4)" by blast
    note c4 = frame_fields[OF robustBurst_frame[OF rb]]
    from q ev True rb c3 c4 show ?thesis by (simp add: triggerApRES_def)
  qed
qed

lemma simulate_band:
  assumes "stat c = MovingForward" "min_err c = 148.5" "max_err c = 160.5"
      and "iquality c = 4 \<or> iquality c = 5"
      and returns: "\<forall>x. \<exists>r x'. robustBurst en x = Some (Inr r, x')"
  shows "\<exists>c'. simulate en [0, 50, 150, 155, 300] c
           = Some ([\<lparr>went_to = MovingForward, acquired = False, left_in = MovingForward\<rparr>,
                    \<lparr>went_to = MovingForward, acquired = False, left_in = MovingForward\<rparr>,
                    \<lparr>went_to = WellPositioned, acquired = True, left_in = MovingForward\<rparr>,
                    \<lparr>went_to = WellPositioned, acquired = True, left_in = MovingForward\<rparr>,
                    \<lparr>went_to = MovingBackward, acquired = False, left_in = MovingBackward\<rparr>],
                   c')
         \<and> stat c' = MovingBackward \<and> nPnt c' = nPnt c + 2"
proof -
  have step: "\<exists>x'. triggerApRES en (x\<lparr>moveDist := d\<rparr>) = Some (Inr (), x')
      \<and> observe (x\<lparr>moveDist := d\<rparr>) = ob
      \<and> stat x' = (if snd ob then MovingForward else fst ob)
      \<and> nPnt x' = nPnt x + (if snd ob then 1 else 0)
      \<and> min_err x' = 148.5 \<and> max_err x' = 160.5 \<and> (iquality x' = 4 \<or> iquality x' = 5)"
    if "min_err x = 148.5" "max_err x = 160.5" "iquality x = 4 \<or> iquality x = 5"
       and "(stat (fst (evaluate (x\<lparr>moveDist := d\<rparr>))),
             snd (evaluate (x\<lparr>moveDist := d\<rparr>))) = ob"
    for x d ob
  proof -
    have q: "iquality (x\<lparr>moveDist := d\<rparr>) = 4 \<or> iquality (x\<lparr>moveDist := d\<rparr>) = 5"
      using that(3) by simp
    from trigger_step[OF q returns] that show ?thesis
      by (auto simp: observe_def)
  qed
  have ob: "(stat (fst (evaluate (x\<lparr>moveDist := d\<rparr>))), snd (evaluate (x\<lparr>moveDist := d\<rparr>)))
      = (let s1 = (if stat x = MovingForward \<and> d > 160.5 then MovingBackward else stat x);
             s2 = (if s1 = MovingBackward \<and> d < 148.5 then MovingForward else s1)
         in if s2 \<noteq> WellPositioned \<and> 148.5 < d \<and> d < 160.5
            then (WellPositioned, True) else (s2, False))"
    if "min_err x = 148.5" "max_err x = 160.5" for x d
  proof -
    have "(stat (fst (evaluate (x\<lparr>moveDist := d\<rparr>))), snd (evaluate (x\<lparr>moveDist := d\<rparr>)))
      = (let s1 = (if stat x = MovingForward \<and> d > max_err x then MovingBackward else stat x);
             s2 = (if s1 = MovingBackward \<and> d < min_err x then MovingForward else s1)
         in if s2 \<noteq> WellPositioned \<and> min_err x < d \<and> d < max_err x
            then (WellPositioned, True) else (s2, False))"
      by (simp add: observe_eq)
    then show ?thesis by (simp only: that)
  qed
  from step[OF assms(2,3,4) ob[OF assms(2,3)], of 0] assms(1)
  obtain c1 where c1: "triggerApRES en (c\<lparr>moveDist := 0\<rparr>) = Some (Inr (), c1)"
    "observe (c\<lparr>moveDist := 0\<rparr>) = (MovingForward, False)"
    "stat c1 = MovingForward" "nPnt c1 = nPnt c" "min_err c1 = 148.5" "max_err c1 = 160.5"
    "iquality c1 = 4 \<or> iquality c1 = 5"
    by (auto simp: Let_def)
  from step[OF c1(5,6,7) ob[OF c1(5,6)], of 50] c1(3)
  obtain c2 where c2: "triggerApRES en (c1\<lparr>moveDist := 50\<rparr>) = Some (Inr (), c2)"
    "observe (c1\<lparr>moveDist := 50\<rparr>) = (MovingForward, False)"
    "stat c2 = MovingForward" "nPnt c2 = nPnt c1" "min_err c2 = 148.5" "max_err c2 = 160.5"
    "iquality c2 = 4 \<or> iquality c2 = 5"
    by (auto simp: Let_def)
  from step[OF c2(5,6,7) ob[OF c2(5,6)], of 150] c2(3)
  obtain c3 where c3: "triggerApRES en (c2\<lparr>moveDist := 150\<rparr>) = Some (Inr (), c3)"
    "observe (c2\<lparr>moveDist := 150\<rparr>) = (WellPositioned, True)"
    "stat c3 = MovingForward" "nPnt c3 = nPnt c2 + 1" "min_err c3 = 148.5" "max_err c3 = 160.5"
    "iquality c3 = 4 \<or> iquality c3 = 5"
    by (auto simp: Let_def)
  from step[OF c3(5,6,7) ob[OF c3(5,6)], of 155] c3(3)
  obtain c4 where c4: "triggerApRES en (c3\<lparr>moveDist := 155\<rparr>) = Some (Inr (), c4)"
    "observe (c3\<lparr>moveDist := 155\<rparr>) = (WellPositioned, True)"
    "stat c4 = MovingForward" "nPnt c4 = nPnt c3 + 1" "min_err c4 = 148.5" "max_err c4 = 160.5"
    "iquality c4 = 4 \<or> iquality c4 = 5"
    by (auto simp: Let_def)
  from step[OF c4(5,6,7) ob[OF c4(5,6)], of 300] c4(3)
  obtain c5 where c5: "triggerApRES en (c4\<lparr>moveDist := 300\<rparr>) = Some (Inr (), c5)"
    "observe (c4\<lparr>moveDist := 300\<rparr>) = (MovingBackward, False)"
    "stat c5 = MovingBackward" "nPnt c5 = nPnt c4"
    by (auto simp: Let_def)
  have "simulate en [0, 50, 150, 155, 300] c
           = Some ([\<lparr>went_to = MovingForward, acquired = False, left_in = MovingForward\<rparr>,
                    \<lparr>went_to = MovingForward, acquired = False, left_in = MovingForward\<rparr>,
                    \<lparr>went_to = WellPositioned, acquired = True, left_in = MovingForward\<rparr>,
                    \<lparr>went_to = WellPositioned, acquired = True, left_in = MovingForward\<rparr>,
                    \<lparr>went_to = MovingBackward, acquired = False, left_in = MovingBackward\<rparr>],
                   c5)"
    by (simp add: c1 c2 c3 c4 c5)
  moreover have "nPnt c5 = nPnt c + 2" by (simp add: c1 c2 c3 c4 c5)
  ultimately show ?thesis using c5(3) by blast
qed

lemma burst_dev_starts: "fst (burst dev_starts (PStr fn) PNone a) = Inr ()"
  by (simp add: eval_defs burst_eval_defs example_config_json_def)

lemma robustBurst_env_ok: "\<exists>r x'. robustBurst env_ok x = Some (Inr r, x')"
proof -
  define c0 where "c0 = (say [Say ''Shooting''] x)\<lparr>nPnt := nPnt x + 1\<rparr>"
  define fn where "fn = str_int (nPnt c0) @ ''_SARRTK_'' @ stamp env_ok (nPnt c0) @ ''.dat''"
  obtain res a where b: "burst dev_starts (PStr fn) PNone (apres c0) = (res, a)"
    by fastforce
  with burst_dev_starts[of fn "apres c0"] have res: "res = Inr ()" by simp
  have "\<exists>lk c'. try_burst env_ok fn (perf_counter env_ok (nPnt c0) 0) 1 1 c0
          = Some (Inr lk, c')"
    using b res
    by (subst try_burst.simps)
       (simp add: env_ok_def TRY_BURST_TIMEOUT_def Let_def say_def)
  then obtain lk c' where
    "try_burst env_ok fn (perf_counter env_ok (nPnt c0) 0) 1 1 c0 = Some (Inr lk, c')"
    by blast
  then have "robustBurst env_ok x
               = Some (Inr PNone, after_loop env_ok fn (fst lk) (snd lk) c')"
    unfolding robustBurst_def Let_def c0_def[symmetric] fn_def[symmetric]
    by (cases lk) simp
  then show ?thesis by blast
qed

text \<open>
  C1, as the code has it. With the thresholds 148.5 and 160.5, a fix of RTK quality
  and acquisitions that return, the displacements 0, 50, 150, 155, 300 fed to a
  controller that is moving forward take it to: moving forward, moving forward, well
  positioned, well positioned, moving backward. Both 150 and 155 lie inside the band,
  so \<^verbatim>\<open>robustBurst\<close> is called at these two turns and at no other (the point counter
  grows by 2), and each of the two turns leaves the controller moving forward again
  when the acquisition has returned; the other turns leave it in the state they moved
  to.
\<close>

theorem band_sequence:
  assumes "stat c = MovingForward" "min_err c = 148.5" "max_err c = 160.5"
      and "iquality c = 4 \<or> iquality c = 5"
      and returns: "\<forall>x. \<exists>r x'. robustBurst en x = Some (Inr r, x')"
  shows "\<exists>c'. simulate en [0, 50, 150, 155, 300] c
           = Some ([\<lparr>went_to = MovingForward, acquired = False, left_in = MovingForward\<rparr>,
                    \<lparr>went_to = MovingForward, acquired = False, left_in = MovingForward\<rparr>,
                    \<lparr>went_to = WellPositioned, acquired = True, left_in = MovingForward\<rparr>,
                    \<lparr>went_to = WellPositioned, acquired = True, left_in = MovingForward\<rparr>,
                    \<lparr>went_to = MovingBackward, acquired = False, left_in = MovingBackward\<rparr>],
                   c')
         \<and> stat c' = MovingBackward \<and> nPnt c' = nPnt c + 2"
  using assms by (rule simulate_band)

theorem band_sequence_witness:
  "\<exists>c'. simulate env_ok [0, 50, 150, 155, 300] ctrl0
           = Some ([\<lparr>went_to = MovingForward, acquired = False, left_in = MovingForward\<rparr>,
                    \<lparr>went_to = MovingForward, acquired = False, left_in = MovingForward\<rparr>,
                    \<lparr>went_to = WellPositioned, acquired = True, left_in = MovingForward\<rparr>,
                    \<lparr>went_to = WellPositioned, acquired = True, left_in = MovingForward\<rparr>,
                    \<lparr>went_to = MovingBackward, acquired = False, left_in = MovingBackward\<rparr>],
                   c')
         \<and> stat c' = MovingBackward \<and> nPnt c' = 3"
proof -
  have r: "\<forall>x. \<exists>r x'. robustBurst env_ok x = Some (Inr r, x')"
    using robustBurst_env_ok by blast
  have "stat ctrl0 = MovingForward" "min_err ctrl0 = 148.5" "max_err ctrl0 = 160.5"
    "iquality ctrl0 = 4 \<or> iquality ctrl0 = 5" "nPnt ctrl0 = 1"
    by (simp_all add: ctrl0_def)
  from band_sequence[OF this(1-4) r] this(5) show ?thesis by simp
qed

text \<open>
  C1, as the claim states it (the third state still moving forward, one acquisition,
  at 155), fails: the third turn, at 150, is already inside the band.
\<close>

theorem band_claim_counterexample:
  "\<exists>obs c'. simulate env_ok [0, 50, 150, 155, 300] ctrl0 = Some (obs, c')
     \<and> map went_to obs \<noteq> [MovingForward, MovingForward, MovingForward, WellPositioned,
                           MovingBackward]
     \<and> went_to (obs ! 2) = WellPositioned \<and> acquired (obs ! 2)
     \<and> length (filter acquired obs) = 2
     \<and> nPnt c' = nPnt ctrl0 + 2"
proof -
  have r: "\<forall>x. \<exists>r x'. robustBurst env_ok x = Some (Inr r, x')"
    using robustBurst_env_ok by blast
  have "stat ctrl0 = MovingForward" "min_err ctrl0 = 148.5" "max_err ctrl0 = 160.5"
    "iquality ctrl0 = 4 \<or> iquality ctrl0 = 5"
    by (simp_all add: ctrl0_def)
  from simulate_band[OF this r] obtain c' where
    "simulate env_ok [0, 50, 150, 155, 300] ctrl0
       = Some ([\<lparr>went_to = MovingForward, acquired = False, left_in = MovingForward\<rparr>,
                \<lparr>went_to = MovingForward, acquired = False, left_in = MovingForward\<rparr>,
                \<lparr>went_to = WellPositioned, acquired = True, left_in = MovingForward\<rparr>,
                \<lparr>went_to = WellPositioned, acquired = True, left_in = MovingForward\<rparr>,
                \<lparr>went_to = MovingBackward, acquired = False, left_in = MovingBackward\<rparr>],
               c')"
    "nPnt c' = nPnt ctrl0 + 2" by blast
  then show ?thesis by simp
qed

lemma evaluate_next_obs:
  "(stat (fst (evaluate c)), snd (evaluate c))
     = next_obs (stat c) (moveDist c) (min_err c) (max_err c)"
  unfolding next_obs_def by (rule observe_eq)

lemma next_obs_settled:
  assumes "next_obs s d lo hi = (s', False)"
  shows "next_obs s' d lo hi = (s', False)"
  using assms by (cases s) (auto simp: next_obs_def Let_def split: if_splits)

lemma next_obs_after_fire:
  assumes "next_obs s d lo hi = (s', True)" "0 \<le> lo"
  shows "next_obs MovingForward 0 lo hi = (MovingForward, False)"
  using assms by (cases s) (auto simp: next_obs_def Let_def split: if_splits)

lemma py_round_0: "py_round 0 = 0"
  by (simp add: py_round_def)

lemma updateDistance_None:
  assumes "refLat u = None" "refLon u = None"
  shows "updateDistance en u
           = Inr (u\<lparr>refLat := Some (lat u), refLon := Some (lon u), moveDist := 0\<rparr>)"
  using assms by (simp add: updateDistance_def)

lemma updateDistance_Some:
  assumes "refLat u = Some a" "refLon u = Some b" "rtk_cond u"
  shows "updateDistance en u
           = Inr (u\<lparr>moveDist := py_round (haversine en (lat u, lon u) (a, b) * 100),
                    rmndst := py_round (stepsize u
                                - py_round (haversine en (lat u, lon u) (a, b) * 100))\<rparr>)"
  using assms by (simp add: updateDistance_def rtk_cond_def Let_def)

lemma updateDistance_bad:
  assumes "\<not> (refLon u = None \<and> refLat u = None)" "\<not> rtk_cond u"
  shows "updateDistance en u
           = Inr (say [Say ''RTK is not available'', LogError ''rtk is not available'',
                       Sleep 2] u)"
  using assms by (auto simp: updateDistance_def rtk_cond_def Let_def)

lemma updateDistance_Inr_cases:
  assumes "updateDistance en u = Inr d"
  obtains (first) "refLat u = None" "refLon u = None"
    | (some) a b where "refLat u = Some a" "refLon u = Some b" "rtk_cond u"
    | (bad) "\<not> (refLon u = None \<and> refLat u = None)" "\<not> rtk_cond u"
proof (cases "refLon u = None \<and> refLat u = None")
  case True
  then show ?thesis using first by blast
next
  case nn: False
  show ?thesis
  proof (cases "rtk_cond u")
    case False
    with nn bad show ?thesis by blast
  next
    case True
    with nn assms obtain a b where "refLat u = Some a" "refLon u = Some b"
      by (auto simp: updateDistance_def rtk_cond_def Let_def split: option.splits if_splits)
    with True some show ?thesis by blast
  qed
qed


lemma trigger_result:
  assumes "triggerApRES en d = Some (Inr (), c1)"
      and "next_obs (stat d) (moveDist d) (min_err d) (max_err d) = (s', fired)"
  shows "lat c1 = lat d \<and> lon c1 = lon d \<and> iquality c1 = iquality d
       \<and> RTKsens c1 = RTKsens d \<and> min_err c1 = min_err d \<and> max_err c1 = max_err d
       \<and> moveDist c1 = moveDist d"
    and "\<not> (iquality d = 4 \<or> iquality d = 5)
         \<Longrightarrow> stat c1 = stat d \<and> refLat c1 = refLat d \<and> refLon c1 = refLon d
             \<and> nPnt c1 = nPnt d"
    and "iquality d = 4 \<or> iquality d = 5 \<Longrightarrow> \<not> fired
         \<Longrightarrow> stat c1 = s' \<and> refLat c1 = refLat d \<and> refLon c1 = refLon d
             \<and> nPnt c1 = nPnt d"
    and "iquality d = 4 \<or> iquality d = 5 \<Longrightarrow> fired
         \<Longrightarrow> stat c1 = MovingForward \<and> refLat c1 = Some (lat d)
             \<and> refLon c1 = Some (lon d) \<and> nPnt c1 = nPnt d + 1"
proof -
  from assms(2) have ev: "stat (fst (evaluate d)) = s'" "snd (evaluate d) = fired"
    using evaluate_next_obs[of d] by simp_all
  obtain c3 where c3: "evaluate d = (c3, fired)" using ev(2) by (cases "evaluate d") simp
  from evaluate_frame[of d] c3 have f3: "frame (d\<lparr>stat := stat c3\<rparr>) c3" by simp
  note ff = frame_fields[OF f3]
  have s3: "stat c3 = s'" using ev(1) c3 by simp
  show "lat c1 = lat d \<and> lon c1 = lon d \<and> iquality c1 = iquality d
       \<and> RTKsens c1 = RTKsens d \<and> min_err c1 = min_err d \<and> max_err c1 = max_err d
       \<and> moveDist c1 = moveDist d"
  proof (cases "(iquality d = 4 \<or> iquality d = 5) \<and> fired")
    case False
    with assms(1) c3 ff show ?thesis
      by (auto simp: triggerApRES_def split: if_splits)
  next
    case True
    with assms(1) c3 obtain r c4 where rb: "robustBurst en c3 = Some (Inr r, c4)"
      and c1: "c1 = c4\<lparr>refLat := Some (lat c4), refLon := Some (lon c4),
                        stat := MovingForward\<rparr>"
      by (auto simp: triggerApRES_def split: option.splits sum.splits if_splits)
    note f4 = frame_fields[OF robustBurst_frame[OF rb]]
    show ?thesis unfolding c1 using f4 ff by simp
  qed
  show "stat c1 = stat d \<and> refLat c1 = refLat d \<and> refLon c1 = refLon d \<and> nPnt c1 = nPnt d"
    if "\<not> (iquality d = 4 \<or> iquality d = 5)"
    using that assms(1) by (simp add: triggerApRES_def)
  show "stat c1 = s' \<and> refLat c1 = refLat d \<and> refLon c1 = refLon d \<and> nPnt c1 = nPnt d"
    if "iquality d = 4 \<or> iquality d = 5" "\<not> fired"
    using that assms(1) c3 ff s3 by (simp add: triggerApRES_def)
  show "stat c1 = MovingForward \<and> refLat c1 = Some (lat d) \<and> refLon c1 = Some (lon d)
          \<and> nPnt c1 = nPnt d + 1"
    if q: "iquality d = 4 \<or> iquality d = 5" and "fired"
  proof -
    from q \<open>fired\<close> assms(1) c3 obtain r c4 where rb: "robustBurst en c3 = Some (Inr r, c4)"
      and c1: "c1 = c4\<lparr>refLat := Some (lat c4), refLon := Some (lon c4),
                        stat := MovingForward\<rparr>"
      by (auto simp: triggerApRES_def split: option.splits sum.splits if_splits)
    note f4 = frame_fields[OF robustBurst_frame[OF rb]]
    show ?thesis unfolding c1 using f4 ff by simp
  qed
qed

lemma trigger_settled:
  assumes "next_obs (stat d) (moveDist d) (min_err d) (max_err d) = (s', False)"
  shows "\<exists>c2. triggerApRES en d = Some (Inr (), c2)"
proof -
  from assms have "snd (evaluate d) = False"
    using evaluate_next_obs[of d] by simp
  then show ?thesis by (cases "evaluate d") (auto simp: triggerApRES_def)
qed

lemma trigger_bad_quality:
  assumes "\<not> (iquality d = 4 \<or> iquality d = 5)"
  shows "triggerApRES en d = Some (Inr (), d)"
  using assms by (simp add: triggerApRES_def)


lemma updateDistance_keeps:
  assumes "updateDistance en u = Inr d"
  shows "stat d = stat u \<and> nPnt d = nPnt u \<and> lat d = lat u \<and> lon d = lon u
       \<and> iquality d = iquality u \<and> RTKsens d = RTKsens u \<and> min_err d = min_err u
       \<and> max_err d = max_err u"
  using assms
  by (auto simp: updateDistance_def Let_def say_def split: if_splits option.splits)

lemma rtk_cond_cong:
  "RTKsens x = RTKsens y \<Longrightarrow> iquality x = iquality y \<Longrightarrow> rtk_cond x = rtk_cond y"
  by (simp add: rtk_cond_def)

lemma rtk_cond_quality: "iquality x = 4 \<or> iquality x = 5 \<Longrightarrow> rtk_cond x"
  by (auto simp: rtk_cond_def)

text \<open>
  The second \<^verbatim>\<open>updateDistance\<close> of a stationary fix: it succeeds, keeps the reference
  point, and gives displacement 0 after an acquisition and the displacement of the
  first turn otherwise.
\<close>

lemma second_distance_fired:
  assumes hav0: "haversine en (lat u2, lon u2) (lat u2, lon u2) = 0"
      and "refLat u2 = Some (lat u2)" "refLon u2 = Some (lon u2)"
      and "iquality u2 = 4 \<or> iquality u2 = 5"
  shows "\<exists>d2. updateDistance en u2 = Inr d2 \<and> moveDist d2 = 0 \<and> refLat d2 = refLat u2
           \<and> refLon d2 = refLon u2"
  using updateDistance_Some[OF assms(2,3) rtk_cond_quality[OF assms(4)], of en] hav0
  by (simp add: py_round_0)

lemma second_distance_settled:
  assumes d: "updateDistance en u = Inr d"
      and hav0: "haversine en (lat u, lon u) (lat u, lon u) = 0"
      and same: "lat u2 = lat u" "lon u2 = lon u" "RTKsens u2 = RTKsens u"
        "iquality u2 = iquality u" "refLat u2 = refLat d" "refLon u2 = refLon d"
        "moveDist u2 = moveDist d"
  shows "\<exists>d2. updateDistance en u2 = Inr d2 \<and> moveDist d2 = moveDist d
           \<and> refLat d2 = refLat u2 \<and> refLon d2 = refLon u2"
  using d
proof (cases rule: updateDistance_Inr_cases[consumes 1, case_names first some bad])
  case first
  with d have dd: "d = u\<lparr>refLat := Some (lat u), refLon := Some (lon u), moveDist := 0\<rparr>"
    by (simp add: updateDistance_None)
  have r2: "refLat u2 = Some (lat u2)" "refLon u2 = Some (lon u2)" "moveDist u2 = 0"
    using same dd by simp_all
  show ?thesis
  proof (cases "rtk_cond u2")
    case True
    from updateDistance_Some[OF r2(1,2) True, of en] hav0 same dd show ?thesis
      by (simp add: py_round_0)
  next
    case False
    have "\<not> (refLon u2 = None \<and> refLat u2 = None)" using r2 by simp
    from updateDistance_bad[OF this False, of en] r2 dd show ?thesis
      by (simp add: say_def)
  qed
next
  case (some a b)
  with d have dd: "d = u\<lparr>moveDist := py_round (haversine en (lat u, lon u) (a, b) * 100),
      rmndst := py_round (stepsize u - py_round (haversine en (lat u, lon u) (a, b) * 100))\<rparr>"
    by (simp add: updateDistance_Some)
  have r2: "refLat u2 = Some a" "refLon u2 = Some b"
    using same dd some by simp_all
  have "rtk_cond u2" using some(3) rtk_cond_cong[OF same(3,4)] by simp
  from updateDistance_Some[OF r2 this, of en] same dd show ?thesis by simp
next
  case bad
  with d have dd: "d = say [Say ''RTK is not available'', LogError ''rtk is not available'',
                       Sleep 2] u"
    by (simp add: updateDistance_bad)
  have r2: "refLat u2 = refLat u" "refLon u2 = refLon u"
    using same dd by (simp_all add: say_def)
  have n2: "\<not> (refLon u2 = None \<and> refLat u2 = None)" using bad(1) r2 by simp
  have "\<not> rtk_cond u2" using bad(2) rtk_cond_cong[OF same(3,4)] by simp
  from updateDistance_bad[OF n2 this, of en] same show ?thesis by (simp add: say_def)
qed


text \<open>
  C8, as the code has it. Take any controller whose band starts at a non-negative
  displacement (as every band set from a step size does), any fix, and a distance
  function that is zero between a point and itself. When one turn of the main loop
  with that fix has completed, a second turn with the same fix completes too and leaves
  the acquisition state, the reference point and the point counter as the first turn
  left them: the state does not move and the trigger does not fire again.
\<close>

theorem stationary_fix_idempotent:
  assumes hav0: "haversine en (g_lat g, g_lon g) (g_lat g, g_lon g) = 0"
      and band: "0 \<le> min_err c"
      and first: "cycle en g c = Some (Inr (), c1)"
  shows "\<exists>c2. cycle en g c1 = Some (Inr (), c2)
           \<and> stat c2 = stat c1 \<and> refLat c2 = refLat c1 \<and> refLon c2 = refLon c1
           \<and> nPnt c2 = nPnt c1"
proof -
  define u where "u = updateGPS g c"
  have u: "lat u = g_lat g" "lon u = g_lon g" "iquality u = g_quality g"
    "min_err u = min_err c" "RTKsens u = RTKsens c"
    by (simp_all add: u_def updateGPS_def)
  from first obtain d where d: "updateDistance en u = Inr d"
    and t: "triggerApRES en d = Some (Inr (), c1)"
    by (auto simp: cycle_def u_def split: sum.splits)
  from updateDistance_keeps[OF d] have dk: "stat d = stat u" "nPnt d = nPnt u"
    "lat d = lat u" "lon d = lon u" "iquality d = iquality u" "RTKsens d = RTKsens u"
    "min_err d = min_err u" "max_err d = max_err u" by simp_all
  obtain s' fired where no: "next_obs (stat d) (moveDist d) (min_err d) (max_err d) = (s', fired)"
    by fastforce
  from trigger_result(1)[OF t no] have tk: "lat c1 = lat d" "lon c1 = lon d"
    "iquality c1 = iquality d" "RTKsens c1 = RTKsens d" "min_err c1 = min_err d"
    "max_err c1 = max_err d" "moveDist c1 = moveDist d" by simp_all
  define u2 where "u2 = updateGPS g c1"
  have u2: "lat u2 = lat u" "lon u2 = lon u" "iquality u2 = iquality u" "RTKsens u2 = RTKsens u"
    "min_err u2 = min_err d" "max_err u2 = max_err d" "moveDist u2 = moveDist d"
    "stat u2 = stat c1" "refLat u2 = refLat c1" "refLon u2 = refLon c1" "nPnt u2 = nPnt c1"
    using tk dk u by (simp_all add: u2_def updateGPS_def)
  have hav_u: "haversine en (lat u, lon u) (lat u, lon u) = 0" using hav0 u by simp
  define q where "q = (iquality d = 4 \<or> iquality d = 5)"
  have goal: "\<exists>c2. triggerApRES en d2 = Some (Inr (), c2) \<and> stat c2 = stat c1
           \<and> refLat c2 = refLat c1 \<and> refLon c2 = refLon c1 \<and> nPnt c2 = nPnt c1"
    if d2: "updateDistance en u2 = Inr d2" and r2: "refLat d2 = refLat c1" "refLon d2 = refLon c1"
      and settled: "q \<Longrightarrow> next_obs (stat c1) (moveDist d2) (min_err d) (max_err d)
                          = (stat c1, False)"
    for d2
  proof -
    from updateDistance_keeps[OF d2] u2 dk have k2: "stat d2 = stat c1" "nPnt d2 = nPnt c1"
      "iquality d2 = iquality d" "min_err d2 = min_err d" "max_err d2 = max_err d"
      by simp_all
    show ?thesis
    proof (cases q)
      case False
      then have "\<not> (iquality d2 = 4 \<or> iquality d2 = 5)" by (simp add: q_def k2)
      from trigger_bad_quality[OF this, of en] show ?thesis using k2 r2 by simp
    next
      case True
      from settled[OF True] have no2:
        "next_obs (stat d2) (moveDist d2) (min_err d2) (max_err d2) = (stat c1, False)"
        by (simp add: k2)
      from trigger_settled[OF no2, of en] obtain c2 where
        c2: "triggerApRES en d2 = Some (Inr (), c2)" by blast
      have q2: "iquality d2 = 4 \<or> iquality d2 = 5" using True by (simp add: q_def k2)
      from trigger_result(3)[OF c2 no2 q2] c2 k2 r2 show ?thesis by simp
    qed
  qed
  have "\<exists>d2. updateDistance en u2 = Inr d2 \<and> refLat d2 = refLat c1 \<and> refLon d2 = refLon c1
          \<and> (q \<longrightarrow> next_obs (stat c1) (moveDist d2) (min_err d) (max_err d)
                  = (stat c1, False))"
  proof (cases "q \<and> fired")
    case True
    then have qd: "iquality d = 4 \<or> iquality d = 5" and f: fired by (simp_all add: q_def)
    from trigger_result(4)[OF t no qd f] have c1: "stat c1 = MovingForward"
      "refLat c1 = Some (lat d)" "refLon c1 = Some (lon d)" by simp_all
    have a: "haversine en (lat u2, lon u2) (lat u2, lon u2) = 0" using hav_u u2 by simp
    have b: "refLat u2 = Some (lat u2)" "refLon u2 = Some (lon u2)"
      using c1 u2 dk by simp_all
    have e: "iquality u2 = 4 \<or> iquality u2 = 5" using qd u2 dk by simp
    from second_distance_fired[OF a b e] obtain d2 where
      d2: "updateDistance en u2 = Inr d2" "moveDist d2 = 0" "refLat d2 = refLat u2"
        "refLon d2 = refLon u2" by blast
    have lo: "0 \<le> min_err d" using band dk u by simp
    from no f have "next_obs (stat d) (moveDist d) (min_err d) (max_err d) = (s', True)"
      by simp
    from next_obs_after_fire[OF this lo] d2 c1 u2 show ?thesis by auto
  next
    case False
    have c1: "refLat c1 = refLat d" "refLon c1 = refLon d"
      "q \<longrightarrow> stat c1 = s' \<and> \<not> fired"
      using trigger_result(2,3)[OF t no] False by (auto simp: q_def)
    have same: "refLat u2 = refLat d" "refLon u2 = refLon d" using c1 u2 by simp_all
    from second_distance_settled[OF d hav_u u2(1,2,4,3) same u2(7)] obtain d2 where
      d2: "updateDistance en u2 = Inr d2" "moveDist d2 = moveDist d" "refLat d2 = refLat u2"
        "refLon d2 = refLon u2" by blast
    have "next_obs (stat c1) (moveDist d2) (min_err d) (max_err d) = (stat c1, False)" if q
    proof -
      from that c1(3) no have "next_obs (stat d) (moveDist d) (min_err d) (max_err d)
          = (stat c1, False)" by simp
      from next_obs_settled[OF this] d2 show ?thesis by simp
    qed
    with d2 u2 show ?thesis by auto
  qed
  then obtain d2 where d2: "updateDistance en u2 = Inr d2" "refLat d2 = refLat c1"
    "refLon d2 = refLon c1"
    "q \<Longrightarrow> next_obs (stat c1) (moveDist d2) (min_err d) (max_err d) = (stat c1, False)"
    by blast
  from goal[OF d2] obtain c2 where "triggerApRES en d2 = Some (Inr (), c2)"
    "stat c2 = stat c1" "refLat c2 = refLat c1" "refLon c2 = refLon c1" "nPnt c2 = nPnt c1"
    by blast
  moreover from this(1) d2(1) have "cycle en g c1 = Some (Inr (), c2)"
    by (simp add: cycle_def u2_def)
  ultimately show ?thesis by blast
qed


theorem stationary_fix_idempotent_witness:
  "\<exists>c1 c2. cycle env_ok fix0 ctrl0 = Some (Inr (), c1) \<and> nPnt c1 = 2
      \<and> cycle env_ok fix0 c1 = Some (Inr (), c2)
      \<and> stat c2 = stat c1 \<and> refLat c2 = refLat c1 \<and> refLon c2 = refLon c1
      \<and> nPnt c2 = nPnt c1"
proof -
  have hav0: "haversine env_ok (g_lat fix0, g_lon fix0) (g_lat fix0, g_lon fix0) = 0"
    by (simp add: env_ok_def)
  have band: "0 \<le> min_err ctrl0" by (simp add: ctrl0_def)
  define u where "u = updateGPS fix0 ctrl0"
  have r: "refLat u = Some (- 70.5)" "refLon u = Some (- 8.25)" "rtk_cond u"
    by (simp_all add: u_def updateGPS_def ctrl0_def fix0_def rtk_cond_def)
  have md: "py_round (haversine env_ok (lat u, lon u) (- 70.5, - 8.25) * 100) = 150"
    by (simp add: u_def updateGPS_def ctrl0_def fix0_def env_ok_def py_round_def)
  define d where "d = u\<lparr>moveDist := 150, rmndst := py_round (stepsize u - 150)\<rparr>"
  have d: "updateDistance env_ok u = Inr d"
    using updateDistance_Some[OF r, of env_ok] md by (simp add: d_def)
  have df: "stat d = MovingForward" "moveDist d = 150" "min_err d = 148.5"
    "max_err d = 160.5" "iquality d = 4" "nPnt d = 1"
    by (simp_all add: d_def u_def updateGPS_def ctrl0_def fix0_def)
  have "next_obs (stat d) (moveDist d) (min_err d) (max_err d) = (WellPositioned, True)"
    unfolding df by (simp add: next_obs_def)
  then have fired: "snd (evaluate d)" using evaluate_next_obs[of d] by simp
  have q: "iquality d = 4 \<or> iquality d = 5" using df by simp
  have ret: "\<forall>x. \<exists>r x'. robustBurst env_ok x = Some (Inr r, x')"
    using robustBurst_env_ok by blast
  from trigger_step[OF q ret] fired df obtain c1 where
    c1: "triggerApRES env_ok d = Some (Inr (), c1)" "nPnt c1 = 2" by auto
  have first: "cycle env_ok fix0 ctrl0 = Some (Inr (), c1)"
    using d c1(1) by (simp add: cycle_def u_def)
  from stationary_fix_idempotent[OF hav0 band first] first c1(2) show ?thesis by blast
qed

lemma cycle_fires_at_reference:
  assumes hav0: "haversine en (g_lat g, g_lon g) (g_lat g, g_lon g) = 0"
      and ref: "refLat c = Some (g_lat g)" "refLon c = Some (g_lon g)"
      and q: "g_quality g = 4 \<or> g_quality g = 5"
      and st: "stat c = MovingForward"
      and band: "min_err c < 0" "0 < max_err c"
      and returns: "\<forall>x. \<exists>r x'. robustBurst en x = Some (Inr r, x')"
  shows "\<exists>c1. cycle en g c = Some (Inr (), c1) \<and> nPnt c1 = nPnt c + 1
           \<and> stat c1 = MovingForward \<and> refLat c1 = Some (g_lat g)
           \<and> refLon c1 = Some (g_lon g) \<and> min_err c1 = min_err c
           \<and> max_err c1 = max_err c"
proof -
  define u where "u = updateGPS g c"
  have u: "lat u = g_lat g" "lon u = g_lon g" "iquality u = g_quality g"
    "min_err u = min_err c" "max_err u = max_err c" "stat u = stat c" "nPnt u = nPnt c"
    "refLat u = refLat c" "refLon u = refLon c"
    by (simp_all add: u_def updateGPS_def)
  have a: "haversine en (lat u, lon u) (lat u, lon u) = 0" using hav0 u by simp
  have b: "refLat u = Some (lat u)" "refLon u = Some (lon u)" using ref u by simp_all
  have e: "iquality u = 4 \<or> iquality u = 5" using q u by simp
  from second_distance_fired[OF a b e] obtain d where
    d: "updateDistance en u = Inr d" "moveDist d = 0" by blast
  from updateDistance_keeps[OF d(1)] u have dk: "stat d = MovingForward" "nPnt d = nPnt c"
    "lat d = g_lat g" "lon d = g_lon g" "iquality d = g_quality g"
    "min_err d = min_err c" "max_err d = max_err c"
    using st by simp_all
  have qd: "iquality d = 4 \<or> iquality d = 5" using q dk by simp
  have no: "next_obs (stat d) (moveDist d) (min_err d) (max_err d) = (WellPositioned, True)"
    using band by (simp add: dk d(2) next_obs_def)
  then have f: "snd (evaluate d)" using evaluate_next_obs[of d] by simp
  from trigger_step[OF qd returns] f dk obtain c1 where
    c1: "triggerApRES en d = Some (Inr (), c1)" "nPnt c1 = nPnt c + 1"
      "min_err c1 = min_err c" "max_err c1 = max_err c" by auto
  from trigger_result(4)[OF c1(1) no qd] dk have
    "stat c1 = MovingForward" "refLat c1 = Some (g_lat g)" "refLon c1 = Some (g_lon g)"
    by simp_all
  moreover have "cycle en g c = Some (Inr (), c1)"
    using d(1) c1(1) by (simp add: cycle_def u_def)
  ultimately show ?thesis using c1 by blast
qed

text \<open>
  C8, as the claim states it (for every controller state), fails where the band holds
  the displacement 0: the acquisition makes the fix the reference point, the same fix
  is then at displacement 0, inside the band, and the trigger fires again. With the
  lower end of the band at -1 and a fix at the reference point, the first turn takes
  point 2 and the second turn, on the identical fix, point 3.
\<close>

theorem stationary_claim_counterexample:
  "\<exists>c1 c2. cycle env_ok fix_ref ctrl_wide = Some (Inr (), c1)
      \<and> cycle env_ok fix_ref c1 = Some (Inr (), c2)
      \<and> nPnt ctrl_wide = 1 \<and> nPnt c1 = 2 \<and> nPnt c2 = 3 \<and> nPnt c2 \<noteq> nPnt c1"
proof -
  have hav0: "haversine env_ok (g_lat fix_ref, g_lon fix_ref) (g_lat fix_ref, g_lon fix_ref) = 0"
    by (simp add: env_ok_def)
  have q: "g_quality fix_ref = 4 \<or> g_quality fix_ref = 5"
    by (simp add: fix_ref_def fix0_def)
  have ret: "\<forall>x. \<exists>r x'. robustBurst env_ok x = Some (Inr r, x')"
    using robustBurst_env_ok by blast
  have c: "refLat ctrl_wide = Some (g_lat fix_ref)" "refLon ctrl_wide = Some (g_lon fix_ref)"
    "stat ctrl_wide = MovingForward" "min_err ctrl_wide < 0" "0 < max_err ctrl_wide"
    "nPnt ctrl_wide = 1"
    by (simp_all add: ctrl_wide_def ctrl0_def fix_ref_def fix0_def)
  from cycle_fires_at_reference[OF hav0 c(1,2) q c(3,4,5) ret] obtain c1 where
    c1: "cycle env_ok fix_ref ctrl_wide = Some (Inr (), c1)" "nPnt c1 = nPnt ctrl_wide + 1"
      "stat c1 = MovingForward" "refLat c1 = Some (g_lat fix_ref)"
      "refLon c1 = Some (g_lon fix_ref)" "min_err c1 = min_err ctrl_wide"
      "max_err c1 = max_err ctrl_wide" by blast
  have b1: "min_err c1 < 0" "0 < max_err c1" using c1 c by simp_all
  from cycle_fires_at_reference[OF hav0 c1(4,5) q c1(3) b1 ret] obtain c2 where
    c2: "cycle env_ok fix_ref c1 = Some (Inr (), c2)" "nPnt c2 = nPnt c1 + 1" by blast
  from c1 c2 c(6) show ?thesis by auto
qed

lemma burst_dev_unreachable:
  "fst (burst dev_unreachable (PStr fn) PNone a) = Inl RequestsConnectionError"
  by (simp add: eval_defs burst_eval_defs example_config_json_def)

lemma burst_dev_rejects:
  "fst (burst (dev_rejects (PDict [])) (PStr fn) PNone a) = Inl RadarBusyException"
  by (simp add: eval_defs burst_eval_defs example_config_json_def)

lemma robustBurst_unreachable:
  "\<exists>x'. robustBurst env_unreachable x = Some (Inl RequestsConnectionError, x')
        \<and> log x' = log x @ [Say ''Shooting'', LogInfo ''burst started (attempt: 1)'']"
proof -
  define c0 where "c0 = (say [Say ''Shooting''] x)\<lparr>nPnt := nPnt x + 1\<rparr>"
  define fn where
    "fn = str_int (nPnt c0) @ ''_SARRTK_'' @ stamp env_unreachable (nPnt c0) @ ''.dat''"
  let ?c1 = "say [LogInfo (''burst started (attempt: '' @ str_nat 1 @ '')'')] c0"
  obtain res a where b: "burst dev_unreachable (PStr fn) PNone (apres ?c1) = (res, a)"
    by fastforce
  with burst_dev_unreachable[of fn "apres ?c1"] have res: "res = Inl RequestsConnectionError"
    by simp
  have "try_burst env_unreachable fn (perf_counter env_unreachable (nPnt c0) 0) 1 1 c0
          = Some (Inl RequestsConnectionError, ?c1\<lparr>apres := a\<rparr>)"
    using b res
    by (subst try_burst.simps)
       (simp add: env_unreachable_def env_ok_def TRY_BURST_TIMEOUT_def Let_def)
  then have "robustBurst env_unreachable x
               = Some (Inl RequestsConnectionError, ?c1\<lparr>apres := a\<rparr>)"
    unfolding robustBurst_def Let_def c0_def[symmetric] fn_def[symmetric]
    by simp
  moreover have "log (?c1\<lparr>apres := a\<rparr>)
                   = log x @ [Say ''Shooting'', LogInfo ''burst started (attempt: 1)'']"
    by (simp add: c0_def say_def str_nat.simps digit_def)
  ultimately show ?thesis by blast
qed

text \<open>
  When every attempt within the 30 seconds is refused with \<^verbatim>\<open>RadarBusyException\<close> (or
  fails with the built-in \<^verbatim>\<open>ConnectionError\<close>), the loop ends by the clock, the failure
  is logged as critical and spoken, and \<^verbatim>\<open>robustBurst\<close> returns normally, so that the
  run goes on. The results are not awaited on any path: the call is commented out.
\<close>

lemma try_burst_exhausted:
  assumes "\<forall>i<n. perf_counter en (nPnt c) (k + i) - lb < TRY_BURST_TIMEOUT"
      and "\<not> perf_counter en (nPnt c) (k + n) - lb < TRY_BURST_TIMEOUT"
      and fails: "\<forall>a. fst (burst (radar en) (PStr fn) PNone a) = Inl RadarBusyException
                     \<or> fst (burst (radar en) (PStr fn) PNone a) = Inl ConnectionError"
  shows "\<exists>c'. try_burst en fn lb k att c = Some (Inr (lb, k + n + 1), c')
              \<and> nPnt c' = nPnt c \<and> set (log c) \<subseteq> set (log c')"
  using assms(1,2)
proof (induction n arbitrary: k att c)
  case 0
  then show ?case by (subst try_burst.simps) simp
next
  case (Suc n)
  have lt: "perf_counter en (nPnt c) k - lb < TRY_BURST_TIMEOUT"
    using Suc.prems(1) by (metis add.right_neutral zero_less_Suc)
  let ?c1 = "say [LogInfo (''burst started (attempt: '' @ str_nat att @ '')'')] c"
  obtain res a where b: "burst (radar en) (PStr fn) PNone (apres ?c1) = (res, a)"
    by fastforce
  with fails have res: "res = Inl RadarBusyException \<or> res = Inl ConnectionError"
    by (metis fst_conv)
  define c2 where "c2 = (if res = Inl RadarBusyException
      then say [LogWarning ''radar busy, trying again'', Say ''radar busy trying again'']
             (?c1\<lparr>apres := a\<rparr>)
      else say [LogWarning ''connection to radar rejected, trying again'', Say ''hold on'']
             (?c1\<lparr>apres := a\<rparr>))"
  have step: "try_burst en fn lb k att c = try_burst en fn lb (k + 1) (att + 1) c2"
  proof (cases "res = Inl RadarBusyException")
    case True
    then have "try_burst en fn lb k att c = try_burst en fn lb (k + 1) (att + 1)
        (say [LogWarning ''radar busy, trying again'', Say ''radar busy trying again'']
             (?c1\<lparr>apres := a\<rparr>))"
      using lt b by (subst try_burst.simps) (simp add: Let_def)
    then show ?thesis using True by (simp add: c2_def)
  next
    case False
    with res have r: "res = Inl ConnectionError" by simp
    then have "try_burst en fn lb k att c = try_burst en fn lb (k + 1) (att + 1)
        (say [LogWarning ''connection to radar rejected, trying again'', Say ''hold on'']
             (?c1\<lparr>apres := a\<rparr>))"
      using lt b by (subst try_burst.simps) (simp add: Let_def)
    then show ?thesis using False by (simp add: c2_def)
  qed
  have n2: "nPnt c2 = nPnt c" and l2: "set (log c) \<subseteq> set (log c2)"
    by (auto simp: c2_def say_def)
  have a1: "\<forall>i<n. perf_counter en (nPnt c2) (k + 1 + i) - lb < TRY_BURST_TIMEOUT"
  proof (intro allI impI)
    fix i assume "i < n"
    then have "Suc i < Suc n" by simp
    with Suc.prems(1) have "perf_counter en (nPnt c) (k + Suc i) - lb < TRY_BURST_TIMEOUT"
      by blast
    then show "perf_counter en (nPnt c2) (k + 1 + i) - lb < TRY_BURST_TIMEOUT"
      by (simp add: n2)
  qed
  have a2: "\<not> perf_counter en (nPnt c2) (k + 1 + n) - lb < TRY_BURST_TIMEOUT"
    using Suc.prems(2) by (simp add: n2)
  from Suc.IH[OF a1 a2, of "att + 1"] obtain c' where
    "try_burst en fn lb (k + 1) (att + 1) c2 = Some (Inr (lb, k + 1 + n + 1), c')"
    "nPnt c' = nPnt c2" "set (log c2) \<subseteq> set (log c')" by blast
  with step n2 l2 show ?case by auto
qed

lemma download_block_log: "set (log c) \<subseteq> set (log (download_block en fn c))"
proof (cases "DownloadFile c \<and> \<not> path_exists en fn")
  case False
  then show ?thesis by (auto simp: download_block_def)
next
  case True
  obtain res a where d: "download en (''Survey/'' @ fn)
      (apres (say [LogInfo ''download started''] c)) = (res, a)"
    by fastforce
  show ?thesis
    using True d by (cases res) (auto simp: download_block_def Let_def say_def)
qed

lemma after_loop_reports:
  assumes "perf_counter en (nPnt c) k - lb \<ge> TRY_BURST_TIMEOUT"
  shows "LogCritical ''burst failed after trying for 30 seconds''
           \<in> set (log (after_loop en fn lb k c))
       \<and> Say ''fatal error'' \<in> set (log (after_loop en fn lb k c))
       \<and> nPnt (after_loop en fn lb k c) = nPnt c"
proof -
  define c2 where "c2 = say [LogCritical ''burst failed after trying for 30 seconds'',
                          LogCritical ''not getting results'',
                          Say ''fatal error'', Say ''restart the system''] c"
  define c3 where "c3 = say (Say ''waiting'' # replicate 28 (Sleep 1)) c2"
  define c4 where "c4 = download_block en fn c3"
  have r: "after_loop en fn lb k c = say (point_log fn c4) c4"
    using assms by (simp add: after_loop_def Let_def c2_def c3_def c4_def)
  have "LogCritical ''burst failed after trying for 30 seconds'' \<in> set (log c3)"
    "Say ''fatal error'' \<in> set (log c3)"
    by (simp_all add: c3_def c2_def say_def)
  with download_block_log[of c3 en fn] have
    "LogCritical ''burst failed after trying for 30 seconds'' \<in> set (log c4)"
    "Say ''fatal error'' \<in> set (log c4)"
    unfolding c4_def by blast+
  moreover have "nPnt c4 = nPnt c"
    using frame_fields(11)[OF download_block_frame[of c3 en fn]]
    by (simp add: c4_def c3_def c2_def say_def)
  ultimately show ?thesis unfolding r by (simp add: say_def)
qed

lemma robustBurst_reports_timeout:
  assumes "\<forall>i<n. perf_counter en (nPnt c + 1) (1 + i) - perf_counter en (nPnt c + 1) 0
                    < TRY_BURST_TIMEOUT"
      and "\<not> perf_counter en (nPnt c + 1) (1 + n) - perf_counter en (nPnt c + 1) 0
                    < TRY_BURST_TIMEOUT"
      and later: "perf_counter en (nPnt c + 1) (1 + n + 1) - perf_counter en (nPnt c + 1) 0
                    \<ge> TRY_BURST_TIMEOUT"
      and fails: "\<forall>fn a. fst (burst (radar en) (PStr fn) PNone a) = Inl RadarBusyException
                     \<or> fst (burst (radar en) (PStr fn) PNone a) = Inl ConnectionError"
  shows "\<exists>c'. robustBurst en c = Some (Inr PNone, c')
           \<and> LogCritical ''burst failed after trying for 30 seconds'' \<in> set (log c')
           \<and> Say ''fatal error'' \<in> set (log c')
           \<and> nPnt c' = nPnt c + 1"
proof -
  define c0 where "c0 = (say [Say ''Shooting''] c)\<lparr>nPnt := nPnt c + 1\<rparr>"
  define fn where "fn = str_int (nPnt c0) @ ''_SARRTK_'' @ stamp en (nPnt c0) @ ''.dat''"
  define lb where "lb = perf_counter en (nPnt c0) 0"
  have n0: "nPnt c0 = nPnt c + 1" by (simp add: c0_def say_def)
  have a1: "\<forall>i<n. perf_counter en (nPnt c0) (1 + i) - lb < TRY_BURST_TIMEOUT"
    using assms(1) by (simp add: n0 lb_def)
  have a2: "\<not> perf_counter en (nPnt c0) (1 + n) - lb < TRY_BURST_TIMEOUT"
    using assms(2) by (simp add: n0 lb_def)
  have a3: "\<forall>a. fst (burst (radar en) (PStr fn) PNone a) = Inl RadarBusyException
                     \<or> fst (burst (radar en) (PStr fn) PNone a) = Inl ConnectionError"
    using fails by blast
  from try_burst_exhausted[OF a1 a2 a3, of 1] obtain c1 where
    c1: "try_burst en fn lb 1 1 c0 = Some (Inr (lb, 1 + n + 1), c1)" "nPnt c1 = nPnt c0"
    by blast
  have rb: "robustBurst en c = Some (Inr PNone, after_loop en fn lb (1 + n + 1) c1)"
    unfolding robustBurst_def Let_def c0_def[symmetric] fn_def[symmetric] lb_def[symmetric]
    using c1(1) by simp
  have "perf_counter en (nPnt c1) (1 + n + 1) - lb \<ge> TRY_BURST_TIMEOUT"
    using later by (simp add: c1(2) n0 lb_def)
  from after_loop_reports[OF this, of fn] rb c1(2) n0 show ?thesis by simp
qed

lemma robustBurst_busy_example:
  "\<exists>c'. robustBurst env_busy ctrl0 = Some (Inr PNone, c')
      \<and> LogCritical ''burst failed after trying for 30 seconds'' \<in> set (log c')
      \<and> Say ''fatal error'' \<in> set (log c') \<and> nPnt c' = 2"
proof -
  have w: "\<forall>i<2. perf_counter env_busy (nPnt ctrl0 + 1) (1 + i)
                  - perf_counter env_busy (nPnt ctrl0 + 1) 0 < TRY_BURST_TIMEOUT"
    by (auto simp: env_busy_def env_ok_def TRY_BURST_TIMEOUT_def less_2_cases_iff)
  have e: "\<not> perf_counter env_busy (nPnt ctrl0 + 1) (1 + 2)
              - perf_counter env_busy (nPnt ctrl0 + 1) 0 < TRY_BURST_TIMEOUT"
    by (simp add: env_busy_def env_ok_def TRY_BURST_TIMEOUT_def)
  have l: "perf_counter env_busy (nPnt ctrl0 + 1) (1 + 2 + 1)
              - perf_counter env_busy (nPnt ctrl0 + 1) 0 \<ge> TRY_BURST_TIMEOUT"
    by (simp add: env_busy_def env_ok_def TRY_BURST_TIMEOUT_def)
  have f: "\<forall>fn a. fst (burst (radar env_busy) (PStr fn) PNone a) = Inl RadarBusyException
                \<or> fst (burst (radar env_busy) (PStr fn) PNone a) = Inl ConnectionError"
    using burst_dev_rejects by (simp add: env_busy_def env_ok_def)
  from robustBurst_reports_timeout[OF w e l f] show ?thesis by (simp add: ctrl0_def)
qed

text \<open>
  C9. The claim: when no burst starts within the retry budget because every attempt
  fails as busy or with a connection failure, \<^verbatim>\<open>robustBurst\<close> reports the timeout and
  the run goes on to the next point. For a radar that is busy this is what the code
  does (lemma \<open>robustBurst_reports_timeout\<close>). For a connection failure it is not: the
  handler \<^verbatim>\<open>except ConnectionError\<close> of \<^verbatim>\<open>robustBurst\<close> names the built-in class, and the
  error that \<^verbatim>\<open>requests\<close> raises, which \<^verbatim>\<open>burst\<close> lets through, is another class. With a
  radar whose POST cannot be delivered the error leaves \<^verbatim>\<open>robustBurst\<close> at the first
  attempt, with nothing reported beyond the start of that attempt, and with it
  \<^verbatim>\<open>triggerApRES\<close> and the turn of the main loop, which has no handler either.
\<close>

theorem connection_failure_escapes:
  "(\<exists>c'. robustBurst env_unreachable ctrl0 = Some (Inl RequestsConnectionError, c')
         \<and> log c' = [Say ''Shooting'', LogInfo ''burst started (attempt: 1)''])
   \<and> map_option fst (triggerApRES env_unreachable (ctrl0\<lparr>moveDist := 150\<rparr>))
       = Some (Inl RequestsConnectionError)
   \<and> map_option fst (cycle env_unreachable fix0 ctrl0) = Some (Inl RequestsConnectionError)"
proof -
  have rb: "\<exists>c'. robustBurst env_unreachable ctrl0 = Some (Inl RequestsConnectionError, c')
         \<and> log c' = [Say ''Shooting'', LogInfo ''burst started (attempt: 1)'']"
    using robustBurst_unreachable[of ctrl0] by (simp add: ctrl0_def)
  have tr: "map_option fst (triggerApRES env_unreachable d) = Some (Inl RequestsConnectionError)"
    if "iquality d = 4" "stat d = MovingForward" "moveDist d = 150" "min_err d = 148.5"
       "max_err d = 160.5" for d
  proof -
    have "next_obs (stat d) (moveDist d) (min_err d) (max_err d) = (WellPositioned, True)"
      unfolding that by (simp add: next_obs_def)
    then have "snd (evaluate d)" using evaluate_next_obs[of d] by simp
    then obtain c3 where c3: "evaluate d = (c3, True)" by (cases "evaluate d") simp
    from robustBurst_unreachable[of c3] obtain x' where
      "robustBurst env_unreachable c3 = Some (Inl RequestsConnectionError, x')" by blast
    with c3 that(1) show ?thesis by (simp add: triggerApRES_def)
  qed
  have t1: "map_option fst (triggerApRES env_unreachable (ctrl0\<lparr>moveDist := 150\<rparr>))
       = Some (Inl RequestsConnectionError)"
    by (rule tr) (simp_all add: ctrl0_def)
  define u where "u = updateGPS fix0 ctrl0"
  have r: "refLat u = Some (- 70.5)" "refLon u = Some (- 8.25)" "rtk_cond u"
    by (simp_all add: u_def updateGPS_def ctrl0_def fix0_def rtk_cond_def)
  have md: "py_round (haversine env_unreachable (lat u, lon u) (- 70.5, - 8.25) * 100) = 150"
    by (simp add: u_def updateGPS_def ctrl0_def fix0_def env_unreachable_def env_ok_def
        py_round_def)
  define d where "d = u\<lparr>moveDist := 150, rmndst := py_round (stepsize u - 150)\<rparr>"
  have d: "updateDistance env_unreachable u = Inr d"
    using updateDistance_Some[OF r, of env_unreachable] md by (simp add: d_def)
  have "map_option fst (triggerApRES env_unreachable d) = Some (Inl RequestsConnectionError)"
    by (rule tr) (simp_all add: d_def u_def updateGPS_def ctrl0_def fix0_def)
  then have t2: "map_option fst (cycle env_unreachable fix0 ctrl0)
                   = Some (Inl RequestsConnectionError)"
    using d by (simp add: cycle_def u_def)
  from rb t1 t2 show ?thesis by blast
qed

end
